theory Spec2Isabelle
  imports Complex_Main
begin

section \<open>Upload manager (hooks/useFileUpload)\<close>

subsection \<open>Data model\<close>

text \<open>
  The browser \<open>File\<close> object, as far as the hook reads it: \<open>file.name\<close>,
  \<open>file.type\<close> and \<open>file.size\<close>.
\<close>

record file_obj =
  file_name :: string
  file_type :: string
  file_size :: nat

text \<open>
  \<open>IExtendedFile\<close> (types/chat.types.ts). Optional fields are options, \<open>None\<close> being
  \<open>undefined\<close>. An \<open>AbortController\<close> is an object with identity and one mutable flag;
  the entry holds its address in the store of controllers kept in the state.
\<close>

record extended_file =
  fileRef :: file_obj
  filename :: string
  cdnUrl :: "string option"
  isUploading :: "bool option"
  uploadId :: string
  uploadAbortController :: "nat option"
  uploadProgress :: "nat option"
  uploadError :: "string option"

text \<open>
  \<open>Partial<IExtendedFile>\<close>: for each field, \<open>None\<close> when the key is absent from the
  object literal and \<open>Some v\<close> when it is present with value \<open>v\<close> (which for an optional
  field may itself be \<open>undefined\<close>, as in \<open>uploadError: undefined\<close>).
\<close>

record partial_file =
  p_file :: "file_obj option"
  p_filename :: "string option"
  p_cdnUrl :: "string option option"
  p_isUploading :: "bool option option"
  p_uploadId :: "string option"
  p_uploadAbortController :: "nat option option"
  p_uploadProgress :: "nat option option"
  p_uploadError :: "string option option"

definition no_updates :: partial_file where
  "no_updates = \<lparr>p_file = None, p_filename = None, p_cdnUrl = None, p_isUploading = None,
     p_uploadId = None, p_uploadAbortController = None, p_uploadProgress = None,
     p_uploadError = None\<rparr>"

text \<open>The object spread \<open>{ ...file, ...updates }\<close>: keys of \<open>updates\<close> win.\<close>

definition spread :: "extended_file \<Rightarrow> partial_file \<Rightarrow> extended_file" where
  "spread f u =
     \<lparr>fileRef = (case p_file u of None \<Rightarrow> fileRef f | Some v \<Rightarrow> v),
      filename = (case p_filename u of None \<Rightarrow> filename f | Some v \<Rightarrow> v),
      cdnUrl = (case p_cdnUrl u of None \<Rightarrow> cdnUrl f | Some v \<Rightarrow> v),
      isUploading = (case p_isUploading u of None \<Rightarrow> isUploading f | Some v \<Rightarrow> v),
      uploadId = (case p_uploadId u of None \<Rightarrow> uploadId f | Some v \<Rightarrow> v),
      uploadAbortController =
        (case p_uploadAbortController u of None \<Rightarrow> uploadAbortController f | Some v \<Rightarrow> v),
      uploadProgress = (case p_uploadProgress u of None \<Rightarrow> uploadProgress f | Some v \<Rightarrow> v),
      uploadError = (case p_uploadError u of None \<Rightarrow> uploadError f | Some v \<Rightarrow> v)\<rparr>"

text \<open>
  The object \<open>updatedFile\<close> of \<open>retryUpload\<close> used as an update. Its literal sets
  \<open>isUploading\<close>, \<open>uploadError\<close>, \<open>uploadProgress\<close> and \<open>uploadAbortController\<close>, and \<open>file\<close>,
  \<open>filename\<close> and \<open>uploadId\<close> are keys of every entry. \<open>cdnUrl\<close> is a key of an entry only
  once a successful upload has stored the URL, so it is a key of the update only when
  it has a value.
\<close>

definition as_updates :: "extended_file \<Rightarrow> partial_file" where
  "as_updates f =
     \<lparr>p_file = Some (fileRef f), p_filename = Some (filename f),
      p_cdnUrl = (case cdnUrl f of None \<Rightarrow> None | Some url \<Rightarrow> Some (Some url)),
      p_isUploading = Some (isUploading f), p_uploadId = Some (uploadId f),
      p_uploadAbortController = Some (uploadAbortController f),
      p_uploadProgress = Some (uploadProgress f), p_uploadError = Some (uploadError f)\<rparr>"

text \<open>
  What the consumer can observe: the optional callbacks of \<open>UseFileUploadOptions\<close> and
  the console. The trace lists the invocations in the order they happen.
\<close>

datatype upload_event =
    OnUploadError string
  | OnProgress string nat
  | OnUploadComplete "extended_file list"
  | ConsoleError string

text \<open>
  The hook's state: the \<open>uploadedFiles\<close> array, \<open>uploadCounterRef.current\<close>, the store of
  abort controllers (index = address, value = \<open>signal.aborted\<close>) and the trace.
\<close>

record upload_state =
  uploadedFiles :: "extended_file list"
  uploadCounter :: nat
  controllers :: "bool list"
  trace :: "upload_event list"

text \<open>
  \<open>UseFileUploadOptions\<close>. The callbacks are optional (\<open>onUploadError?.(...)\<close>): the
  flags say whether one was given. \<open>maxFiles\<close> is a number, so it may be negative.
\<close>

record upload_options =
  maxFiles :: int
  allowedTypes :: "string list"
  has_onUploadComplete :: bool
  has_onUploadError :: bool
  has_onProgress :: bool

subsection \<open>Constants (utils/constants)\<close>

definition ALLOWED_FILE_TYPES :: "string list" where
  "ALLOWED_FILE_TYPES = [''image/jpeg'', ''image/jpg'', ''image/png'', ''image/webp'']"

definition MAX_FILE_SIZE :: nat where
  "MAX_FILE_SIZE = 5 * 1024 * 1024"

definition MAX_FILES_ALLOWED :: int where
  "MAX_FILES_ALLOWED = 5"

definition MAX_FILES_EXCEEDED :: string where
  "MAX_FILES_EXCEEDED = ''Maximum number of files exceeded''"

definition INVALID_FILE_TYPE :: string where
  "INVALID_FILE_TYPE = ''Invalid file type. Allowed types: JPEG, PNG, WebP''"

definition UPLOAD_FAILED :: string where
  "UPLOAD_FAILED = ''Upload failed. Please try again''"

definition default_options :: upload_options where
  "default_options = \<lparr>maxFiles = MAX_FILES_ALLOWED, allowedTypes = ALLOWED_FILE_TYPES,
     has_onUploadComplete = True, has_onUploadError = True, has_onProgress = True\<rparr>"

subsection \<open>JavaScript truthiness of the optional fields\<close>

definition truthy_bool :: "bool option \<Rightarrow> bool" where
  "truthy_bool b = (b = Some True)"

definition truthy_str :: "string option \<Rightarrow> bool" where
  "truthy_str s = (case s of None \<Rightarrow> False | Some v \<Rightarrow> v \<noteq> [])"

subsection \<open>updateFile\<close>

text \<open>
  \<open>setUploadedFiles(prev => prev.map(file => file.uploadId === uploadId
     ? { ...file, ...updates } : file))\<close>
\<close>

definition updateFile :: "string \<Rightarrow> partial_file \<Rightarrow> upload_state \<Rightarrow> upload_state" where
  "updateFile uid updates s =
     s\<lparr>uploadedFiles :=
         map (\<lambda>f. if uploadId f = uid then spread f updates else f) (uploadedFiles s)\<rparr>"


subsection \<open>Helpers of the hook\<close>

text \<open>Decimal rendering of a number inside a template string.\<close>

definition digit_char :: "nat \<Rightarrow> char" where
  "digit_char d = ''0123456789'' ! d"

fun string_of_nat :: "nat \<Rightarrow> string" where
  "string_of_nat n =
     (if n < 10 then [digit_char n]
      else string_of_nat (n div 10) @ [digit_char (n mod 10)])"

declare string_of_nat.simps [simp del]

text \<open>\<open>errors.join('\n')\<close>\<close>

fun join_lines :: "string list \<Rightarrow> string" where
  "join_lines [] = []"
| "join_lines [e] = e"
| "join_lines (e # es) = e @ [CHR 0x0A] @ join_lines es"

text \<open>
  \<open>validateFile\<close> (utils/helpers): the pair is \<open>(valid, error)\<close>. The size in the message
  is \<open>formatFileSize(MAX_FILE_SIZE)\<close>, which for the constant is the text \<open>5 MB\<close>.
\<close>

definition validateFile :: "file_obj \<Rightarrow> bool \<times> string option" where
  "validateFile f =
     (if file_size f > MAX_FILE_SIZE then
        (False, Some (''File \"'' @ file_name f @ ''\" is too large. Maximum size is 5 MB''))
      else if file_type f \<notin> set ALLOWED_FILE_TYPES then
        (False, Some (''File \"'' @ file_name f @ ''\" has an invalid type. Allowed types: ''
                      @ ''image/jpeg, image/jpg, image/png, image/webp''))
      else (True, None))"

text \<open>An optional callback: the invocation is observed only when the callback was given.\<close>

definition emit :: "bool \<Rightarrow> upload_event \<Rightarrow> upload_state \<Rightarrow> upload_state" where
  "emit given e s = (if given then s\<lparr>trace := trace s @ [e]\<rparr> else s)"

text \<open>\<open>new AbortController()\<close>: a fresh address, not aborted.\<close>

definition new_AbortController :: "upload_state \<Rightarrow> nat \<times> upload_state" where
  "new_AbortController s =
     (length (controllers s), s\<lparr>controllers := controllers s @ [False]\<rparr>)"

text \<open>\<open>controller.abort()\<close> and \<open>controller.signal.aborted\<close>.\<close>

definition abort :: "nat \<Rightarrow> upload_state \<Rightarrow> upload_state" where
  "abort c s = s\<lparr>controllers := (controllers s)[c := True]\<rparr>"

definition signal_aborted :: "upload_state \<Rightarrow> nat \<Rightarrow> bool" where
  "signal_aborted s c = (c < length (controllers s) \<and> controllers s ! c)"

text \<open>
  \<open>generateUploadId\<close>: increments the counter and returns
  \<open>upload_${Date.now()}_${uploadCounterRef.current}\<close>; \<open>now\<close> is the clock reading.
\<close>

definition generateUploadId :: "nat \<Rightarrow> upload_state \<Rightarrow> string \<times> upload_state" where
  "generateUploadId now s =
     (let s1 = s\<lparr>uploadCounter := uploadCounter s + 1\<rparr>
      in (''upload_'' @ string_of_nat now @ ''_'' @ string_of_nat (uploadCounter s1), s1))"

text \<open>
  \<open>generateSafeFilename\<close> (utils/helpers): \<open>${Date.now()}_${slugify(name)}\<close>. The slug is a
  chain of regular-expression replacements that no property below reads; it is a
  parameter.
\<close>

definition generateSafeFilename :: "nat \<Rightarrow> (string \<Rightarrow> string) \<Rightarrow> string \<Rightarrow> string" where
  "generateSafeFilename now slugify originalFilename =
     string_of_nat now @ ''_'' @ slugify originalFilename"

subsection \<open>uploadFiles\<close>

text \<open>
  The validation loop of \<open>uploadFiles\<close>: the pair is \<open>(validFiles, errors)\<close>, both in input
  order.
\<close>

fun validate_files :: "upload_options \<Rightarrow> file_obj list \<Rightarrow> file_obj list \<times> string list" where
  "validate_files opts [] = ([], [])"
| "validate_files opts (f # fs) =
     (let (validFiles, errors) = validate_files opts fs in
      if file_type f \<notin> set (allowedTypes opts) then
        (validFiles, (file_name f @ '': '' @ INVALID_FILE_TYPE) # errors)
      else
        (case validateFile f of
           (False, e) \<Rightarrow>
             (validFiles, (if truthy_str e then the e else ''Validation failed'') # errors)
         | (True, _) \<Rightarrow> (f # validFiles, errors)))"

text \<open>
  \<open>filesToUpload.map(file => ({ file, filename, uploadId: generateUploadId(),
  isUploading: true, uploadProgress: 0, uploadAbortController: new AbortController() }))\<close>
\<close>

fun make_extended ::
  "nat \<Rightarrow> (string \<Rightarrow> string) \<Rightarrow> file_obj list \<Rightarrow> upload_state \<Rightarrow> extended_file list \<times> upload_state"
where
  "make_extended now slugify [] s = ([], s)"
| "make_extended now slugify (f # fs) s =
     (let (uid, s1) = generateUploadId now s;
          (c, s2) = new_AbortController s1;
          ef = \<lparr>fileRef = f, filename = generateSafeFilename now slugify (file_name f),
                cdnUrl = None, isUploading = Some True, uploadId = uid,
                uploadAbortController = Some c, uploadProgress = Some 0, uploadError = None\<rparr>;
          (efs, s3) = make_extended now slugify fs s2
      in (ef # efs, s3))"

text \<open>
  \<open>uploadFiles\<close> up to its first suspension. The callback is created by a render of the
  hook and reads \<open>uploadedFiles.length\<close> from that render (it is in the dependency list
  of \<open>useCallback\<close>); the new entries are appended through the functional updater
  \<open>setUploadedFiles(prev => ...)\<close>, so to the current batch. \<open>rendered\<close> is the array
  \<open>uploadedFiles\<close> of the render, the state holds the current one; they are the same
  when the hook has rendered since the batch last changed. The result is the list of
  entries created, for each of which \<open>processFileUpload\<close> is then called, and the new
  state.
\<close>

definition uploadFiles ::
  "upload_options \<Rightarrow> nat \<Rightarrow> (string \<Rightarrow> string) \<Rightarrow> extended_file list \<Rightarrow> file_obj list
     \<Rightarrow> upload_state \<Rightarrow> extended_file list \<times> upload_state"
where
  "uploadFiles opts now slugify rendered files s =
     (let currentCount = int (length rendered) in
      if currentCount \<ge> maxFiles opts then
        ([], emit (has_onUploadError opts) (OnUploadError MAX_FILES_EXCEEDED) s)
      else
        (let (validFiles, errors) = validate_files opts files;
             s1 = (if length errors > 0
                   then emit (has_onUploadError opts) (OnUploadError (join_lines errors)) s
                   else s);
             availableSlots = maxFiles opts - currentCount;
             filesToUpload = take (nat availableSlots) validFiles
         in if length filesToUpload = 0 then ([], s1)
            else
              (let (extendedFiles, s2) = make_extended now slugify filesToUpload s1
               in (extendedFiles,
                   s2\<lparr>uploadedFiles := uploadedFiles s2 @ extendedFiles\<rparr>))))"

subsection \<open>deleteFile, cancelUpload, retryUpload\<close>

definition deleteFile :: "nat \<Rightarrow> upload_state \<Rightarrow> upload_state" where
  "deleteFile index s =
     (let prev = uploadedFiles s;
          s1 = (if index < length prev then
                  (let fileToDelete = prev ! index in
                   case uploadAbortController fileToDelete of
                     Some c \<Rightarrow> if truthy_bool (isUploading fileToDelete) then abort c s else s
                   | None \<Rightarrow> s)
                else s)
      in s1\<lparr>uploadedFiles := map snd (filter (\<lambda>(i, _). i \<noteq> index) (enumerate 0 prev))\<rparr>)"

text \<open>
  \<open>cancelUpload\<close>: every entry with this identifier that is uploading has its controller
  aborted and is mapped to \<open>null\<close>; \<open>filter(Boolean)\<close> then drops the nulls.
\<close>

definition cancel_hit :: "string \<Rightarrow> extended_file \<Rightarrow> bool" where
  "cancel_hit uid f = (uploadId f = uid \<and> truthy_bool (isUploading f))"

text \<open>The side effect of the \<open>map\<close> callback: \<open>file.uploadAbortController?.abort()\<close>.\<close>

definition abort_hits :: "string \<Rightarrow> extended_file list \<Rightarrow> upload_state \<Rightarrow> upload_state" where
  "abort_hits uid fs s =
     fold (\<lambda>f st. if cancel_hit uid f
                   then (case uploadAbortController f of
                           Some c \<Rightarrow> abort c st | None \<Rightarrow> st)
                   else st) fs s"

definition cancelUpload :: "string \<Rightarrow> upload_state \<Rightarrow> upload_state" where
  "cancelUpload uid s =
     (let prev = uploadedFiles s;
          s1 = abort_hits uid prev s
      in s1\<lparr>uploadedFiles :=
              List.map_filter (\<lambda>f. if cancel_hit uid f then None else Some f) prev\<rparr>)"

text \<open>
  \<open>processFileUpload\<close> begins with the only look at the abort signal: when it is already
  aborted the task returns at once, otherwise the transfer starts.
\<close>

definition processFileUpload_starts :: "extended_file \<Rightarrow> upload_state \<Rightarrow> bool" where
  "processFileUpload_starts ef s =
     (case uploadAbortController ef of
        Some c \<Rightarrow> \<not> signal_aborted s c
      | None \<Rightarrow> True)"

text \<open>
  \<open>retryUpload\<close> up to its first suspension: the entry whose upload task was started
  (if any) and the new state. The entry is looked up in \<open>uploadedFiles\<close> of the render
  that created the callback (\<open>rendered\<close>); \<open>updateFile\<close> then maps the current batch.
  \<open>updatedFile\<close> is the reset copy
  \<open>{ ...fileToRetry, isUploading: true, uploadError: undefined, uploadProgress: 0,
  uploadAbortController: new AbortController() }\<close>.
\<close>

definition updatedFile :: "extended_file \<Rightarrow> nat \<Rightarrow> extended_file" where
  "updatedFile fileToRetry c =
     fileToRetry\<lparr>isUploading := Some True, uploadError := None, uploadProgress := Some 0,
                 uploadAbortController := Some c\<rparr>"

definition retryUpload ::
  "extended_file list \<Rightarrow> string \<Rightarrow> upload_state \<Rightarrow> extended_file option \<times> upload_state"
where
  "retryUpload rendered uid s =
     (case find (\<lambda>f. uploadId f = uid) rendered of
        None \<Rightarrow> (None, s\<lparr>trace := trace s @ [ConsoleError ''File not found for retry'']\<rparr>)
      | Some fileToRetry \<Rightarrow>
          (let (c, s1) = new_AbortController s;
               updatedFile = updatedFile fileToRetry c;
               s2 = updateFile uid (as_updates updatedFile) s1
           in (if processFileUpload_starts updatedFile s2 then Some updatedFile else None, s2)))"

subsection \<open>The upload task\<close>

text \<open>
  A value thrown in JavaScript: an \<open>Error\<close> instance with its \<open>name\<close> and \<open>message\<close>, a
  string, or anything else.
\<close>

datatype thrown = ErrorObj string string | ThrownString string | ThrownOther

text \<open>
  What the transfer \<open>uploadFile(file, onProgress)\<close> does each time it is resumed: it calls
  \<open>onProgress\<close>, or it settles, resolving with \<open>{ success, data }\<close> (\<open>data\<close> being
  \<open>{ url, filename }\<close>) or rejecting.
\<close>

datatype transfer_step =
    Progress nat
  | Resolve bool "(string \<times> string) option"
  | Reject thrown

text \<open>The catch block of \<open>processFileUpload\<close>.\<close>

definition upload_failed :: "upload_options \<Rightarrow> string \<Rightarrow> thrown \<Rightarrow> upload_state \<Rightarrow> upload_state" where
  "upload_failed opts uid e s =
     (let errorMessage = (case e of ErrorObj _ m \<Rightarrow> m | _ \<Rightarrow> UPLOAD_FAILED)
      in emit (has_onUploadError opts) (OnUploadError errorMessage)
           (updateFile uid
              (no_updates\<lparr>p_isUploading := Some (Some False),
                          p_uploadError := Some (Some errorMessage)\<rparr>) s))"

text \<open>
  One resumption of the task \<open>processFileUpload\<close> of the entry \<open>uid\<close>: the progress callback
  given to \<open>uploadFile\<close>, or what follows \<open>await uploadFile(...)\<close>.
\<close>

fun task_step :: "upload_options \<Rightarrow> string \<Rightarrow> transfer_step \<Rightarrow> upload_state \<Rightarrow> upload_state" where
  "task_step opts uid (Progress p) s =
     emit (has_onProgress opts) (OnProgress uid p)
       (updateFile uid (no_updates\<lparr>p_uploadProgress := Some (Some p)\<rparr>) s)"
| "task_step opts uid (Resolve success data) s =
     (if \<not> success \<or> data = None then
        upload_failed opts uid (ErrorObj ''Error'' ''Upload failed'') s
      else
        updateFile uid
          (no_updates\<lparr>p_cdnUrl := Some (Some (fst (the data))),
                      p_isUploading := Some (Some False),
                      p_uploadProgress := Some (Some 100)\<rparr>) s)"
| "task_step opts uid (Reject e) s = upload_failed opts uid e s"

definition run_task :: "upload_options \<Rightarrow> string \<Rightarrow> transfer_step list \<Rightarrow> upload_state \<Rightarrow> upload_state" where
  "run_task opts uid steps s = fold (task_step opts uid) steps s"

text \<open>
  \<open>uploadFile\<close> (services/mockApiService): \<open>for (progress = 0; progress <= 100; progress += 10)\<close>
  sleeps and reports, then resolves with the mock URL. It takes the file and the
  progress callback and nothing else. \<open>gid\<close> is the result of \<open>generateId()\<close>.
\<close>

definition uploadFile :: "file_obj \<Rightarrow> string \<Rightarrow> transfer_step list" where
  "uploadFile f gid =
     map (\<lambda>k. Progress (10 * k)) [0..<11]
     @ [Resolve True (Some (''https://cdn.example.com/uploads/'' @ gid @ ''_'' @ file_name f,
                            file_name f))]"

text \<open>
  The entries handed to the consumer as uploaded: \<open>filter(f => !f.uploadError && f.cdnUrl)\<close>.
\<close>

definition successfulFiles :: "extended_file list \<Rightarrow> extended_file list" where
  "successfulFiles fs = filter (\<lambda>f. \<not> truthy_str (uploadError f) \<and> truthy_str (cdnUrl f)) fs"

definition initial_upload_state :: upload_state where
  "initial_upload_state = \<lparr>uploadedFiles = [], uploadCounter = 0, controllers = [], trace = []\<rparr>"

section \<open>Streaming service (services/streamingService)\<close>

subsection \<open>Values, events, configuration\<close>

text \<open>
  What \<open>JSON.parse\<close> can return. A finite JavaScript number is a rational. The parser
  itself is a parameter \<open>parse\<close> of the functions below: \<open>None\<close> when \<open>JSON.parse\<close>
  throws.
\<close>

datatype json =
    JNull
  | JBool bool
  | JNum rat
  | JStr string
  | JArr "json list"
  | JObj "(string \<times> json) list"

text \<open>
  Reading a property of a value that is not \<open>null\<close>: \<open>None\<close> is \<open>undefined\<close>. (On \<open>null\<close> the
  access throws; the callers treat that case themselves.)
\<close>

fun get_prop :: "json \<Rightarrow> string \<Rightarrow> json option" where
  "get_prop (JObj kvs) k = map_of kvs k"
| "get_prop _ k = None"

text \<open>
  Everything the service does that can be observed: the consumer's callbacks, the
  console, and a timer that ran to its end (\<open>setTimeout(resolve, ms)\<close>).
\<close>

datatype stream_event =
    OnChunk json
  | OnThreadIdChange "json option"
  | OnComplete
  | OnError thrown
  | ConsoleWarn string
  | ConsoleLog string
  | Timeout nat

text \<open>How an awaited promise stands: resolved, rejected, or never settled.\<close>

datatype outcome = Resolved | Rejected thrown | Pending

text \<open>
  \<open>IStreamingConfig & StreamingOptions\<close>, as far as the service reads it after building
  the request: the message, whether \<open>onThreadIdChange\<close> and \<open>signal\<close> were given.
\<close>

record streaming_config =
  message :: string
  has_onThreadIdChange :: bool
  has_signal :: bool

text \<open>\<open>error instanceof Error && error.name === 'AbortError'\<close>\<close>

definition is_AbortError :: "thrown \<Rightarrow> bool" where
  "is_AbortError e = (case e of ErrorObj n _ \<Rightarrow> n = ''AbortError'' | _ \<Rightarrow> False)"

text \<open>
  \<open>error instanceof Error ? error : new Error(getErrorMessage(error))\<close>, with
  \<open>getErrorMessage\<close> of utils/helpers.
\<close>

definition as_Error :: "thrown \<Rightarrow> thrown" where
  "as_Error e =
     (case e of
        ErrorObj n m \<Rightarrow> ErrorObj n m
      | ThrownString s \<Rightarrow> ErrorObj ''Error'' s
      | ThrownOther \<Rightarrow> ErrorObj ''Error'' ''An unknown error occurred'')"

subsection \<open>Text\<close>

text \<open>
  Text is a list of characters. White space is what \<open>trim\<close> and \<open>\s\<close> take for white
  space among them: tab, line feed, vertical tab, form feed, carriage return, space,
  no-break space.
\<close>

definition is_space :: "char \<Rightarrow> bool" where
  "is_space c = (c \<in> set [CHR 0x09, CHR 0x0A, CHR 0x0B, CHR 0x0C, CHR 0x0D, CHR 0x20, CHR 0xA0])"

definition trim :: "string \<Rightarrow> string" where
  "trim s = rev (dropWhile is_space (rev (dropWhile is_space s)))"

text \<open>\<open>str.split(sep)\<close> for a separator of one character: never the empty array.\<close>

fun split :: "char \<Rightarrow> string \<Rightarrow> string list" where
  "split sep [] = [[]]"
| "split sep (c # cs) =
     (if c = sep then [] # split sep cs
      else (case split sep cs of
              piece # pieces \<Rightarrow> (c # piece) # pieces
            | [] \<Rightarrow> [[c]]))"

text \<open>\<open>line.replace(/^data:\s*/, '')\<close>\<close>

definition cleanedLine :: "string \<Rightarrow> string" where
  "cleanedLine line =
     (if take 5 line = ''data:'' then dropWhile is_space (drop 5 line) else line)"

subsection \<open>startStreaming\<close>

text \<open>
  The body of \<open>for (const line of lines)\<close>. A blank line is passed over. Otherwise the
  line is cleaned and parsed inside \<open>try\<close>; when \<open>JSON.parse\<close> throws, the \<open>catch\<close> warns
  and the loop goes on. A parsed chunk is handed to \<open>onChunk\<close>; reading \<open>chunk.type\<close> of
  \<open>null\<close> then throws inside the same \<open>try\<close>.
\<close>

definition process_line :: "streaming_config \<Rightarrow> (string \<Rightarrow> json option) \<Rightarrow> string \<Rightarrow> stream_event list" where
  "process_line config parse line =
     (if trim line = [] then []
      else
        (case parse (cleanedLine line) of
           None \<Rightarrow> [ConsoleWarn line]
         | Some chunk \<Rightarrow>
             OnChunk chunk #
               (if chunk = JNull then [ConsoleWarn line]
                else if get_prop chunk ''type'' = Some (JStr ''thread_id'')
                        \<and> has_onThreadIdChange config
                then [OnThreadIdChange (get_prop chunk ''threadId'')]
                else [])))"

text \<open>
  One settled \<open>reader.read()\<close>: a fragment of bytes, the end of the stream, or a
  rejection. The fetch itself rejects, never answers, or answers with \<open>response.ok\<close>,
  \<open>response.status\<close> and the body (\<open>None\<close> when \<open>response.body\<close> is null); the body is the
  list of the reads that settle.
\<close>

datatype 'b read_result = Value "'b list" | Done | ReadRejects thrown

datatype 'b fetch_result =
    FetchRejects thrown
  | NoResponse
  | Response bool nat "'b read_result list option"

text \<open>
  The loop \<open>while (true)\<close>. \<open>dec\<close> is \<open>decoder.decode(value, { stream: true })\<close>: it takes the
  decoder's state and a fragment and gives the decoded text and the next state.
  \<open>buffer.split('\n')\<close>, \<open>lines.pop()\<close> (the last element, always there) and the loop over
  the remaining lines follow. When no further read settles the loop waits for ever.
\<close>

fun read_loop ::
  "streaming_config \<Rightarrow> (string \<Rightarrow> json option) \<Rightarrow> ('d \<Rightarrow> 'b list \<Rightarrow> string \<times> 'd) \<Rightarrow> 'd \<Rightarrow> string
     \<Rightarrow> 'b read_result list \<Rightarrow> stream_event list \<times> outcome"
where
  "read_loop config parse dec d buffer [] = ([], Pending)"
| "read_loop config parse dec d buffer (Done # rs) = ([OnComplete], Resolved)"
| "read_loop config parse dec d buffer (ReadRejects e # rs) = ([], Rejected e)"
| "read_loop config parse dec d buffer (Value v # rs) =
     (let (text, d') = dec d v;
          buffer1 = buffer @ text;
          lines = split (CHR 0x0A) buffer1;
          buffer2 = last lines;
          evs = concat (map (process_line config parse) (butlast lines));
          (evs', out) = read_loop config parse dec d' buffer2 rs
      in (evs @ evs', out))"

text \<open>
  The \<open>catch\<close> of \<open>startStreaming\<close>, applied to what the \<open>try\<close> block did: an abort is
  logged and absorbed, any other error goes to \<open>onError\<close>; either way the function
  returns normally.
\<close>

definition startStreaming_catch :: "stream_event list \<times> outcome \<Rightarrow> stream_event list \<times> outcome" where
  "startStreaming_catch r =
     (case r of
        (evs, Rejected error) \<Rightarrow>
          if is_AbortError error then (evs @ [ConsoleLog ''Stream aborted by user''], Resolved)
          else (evs @ [OnError (as_Error error)], Resolved)
      | (evs, out) \<Rightarrow> (evs, out))"

definition startStreaming ::
  "streaming_config \<Rightarrow> (string \<Rightarrow> json option) \<Rightarrow> ('d \<Rightarrow> 'b list \<Rightarrow> string \<times> 'd) \<Rightarrow> 'd
     \<Rightarrow> 'b fetch_result \<Rightarrow> stream_event list \<times> outcome"
where
  "startStreaming config parse dec d0 response =
     startStreaming_catch
       (case response of
          FetchRejects e \<Rightarrow> ([], Rejected e)
        | NoResponse \<Rightarrow> ([], Pending)
        | Response ok status body \<Rightarrow>
            if \<not> ok then
              ([], Rejected (ErrorObj ''Error''
                               (''HTTP error! status: '' @ string_of_nat status)))
            else
              (case body of
                 None \<Rightarrow> ([], Rejected (ErrorObj ''Error'' ''Response body is not readable''))
               | Some reads \<Rightarrow> read_loop config parse dec d0 [] reads))"

subsection \<open>reconnectWithBackoff\<close>

record backoff_options =
  maxRetries :: nat
  initialDelay :: nat
  maxDelay :: nat
  multiplier :: nat

definition default_backoff :: backoff_options where
  "default_backoff = \<lparr>maxRetries = 3, initialDelay = 1000, maxDelay = 10000, multiplier = 2\<rparr>"

definition reconnecting_message :: "nat \<Rightarrow> nat \<Rightarrow> nat \<Rightarrow> string" where
  "reconnecting_message delay attempt n =
     ''Reconnecting in '' @ string_of_nat delay @ ''ms (attempt '' @ string_of_nat (attempt + 1)
       @ ''/'' @ string_of_nat n @ '')...''"

text \<open>
  The loop \<open>for (let attempt = 0; attempt < maxRetries; attempt++)\<close>, by the number of
  iterations that remain. \<open>attempt_run attempt\<close> is what the awaited call of that attempt
  does: its events and how its promise settles. A resolved attempt returns; a rejected
  one is remembered as \<open>lastError\<close> and, unless it was the last, followed by the timer
  and \<open>delay = Math.min(delay * multiplier, maxDelay)\<close>. After the loop \<open>onError\<close> gets
  \<open>lastError\<close> if there is one.
\<close>

fun reconnect_loop ::
  "(nat \<Rightarrow> stream_event list \<times> outcome) \<Rightarrow> backoff_options \<Rightarrow> nat \<Rightarrow> nat \<Rightarrow> nat \<Rightarrow> thrown option
     \<Rightarrow> stream_event list \<times> outcome"
where
  "reconnect_loop attempt_run opts 0 attempt delay lastError =
     ((case lastError of Some e \<Rightarrow> [OnError e] | None \<Rightarrow> []), Resolved)"
| "reconnect_loop attempt_run opts (Suc remaining) attempt delay lastError =
     (case attempt_run attempt of
        (evs, Resolved) \<Rightarrow> (evs, Resolved)
      | (evs, Pending) \<Rightarrow> (evs, Pending)
      | (evs, Rejected error) \<Rightarrow>
          (if int attempt < int (maxRetries opts) - 1 then
             (let (evs', out) =
                    reconnect_loop attempt_run opts remaining (attempt + 1)
                      (min (delay * multiplier opts) (maxDelay opts)) (Some (as_Error error))
              in (evs @ [ConsoleLog (reconnecting_message delay attempt (maxRetries opts)),
                         Timeout delay] @ evs', out))
           else
             (let (evs', out) =
                    reconnect_loop attempt_run opts remaining (attempt + 1) delay
                      (Some (as_Error error))
              in (evs @ evs', out))))"

text \<open>
  \<open>reconnectWithBackoff\<close>: each attempt awaits \<open>startStreaming\<close>; \<open>responses attempt\<close> is what
  the transport does on that attempt.
\<close>

definition reconnectWithBackoff ::
  "streaming_config \<Rightarrow> (string \<Rightarrow> json option) \<Rightarrow> ('d \<Rightarrow> 'b list \<Rightarrow> string \<times> 'd) \<Rightarrow> 'd
     \<Rightarrow> backoff_options \<Rightarrow> (nat \<Rightarrow> 'b fetch_result) \<Rightarrow> stream_event list \<times> outcome"
where
  "reconnectWithBackoff config parse dec d0 opts responses =
     reconnect_loop (\<lambda>attempt. startStreaming config parse dec d0 (responses attempt))
       opts (maxRetries opts) 0 (initialDelay opts) None"

text \<open>The time spent in timers that ran to their end.\<close>

fun elapsed :: "stream_event list \<Rightarrow> nat" where
  "elapsed [] = 0"
| "elapsed (Timeout ms # evs) = ms + elapsed evs"
| "elapsed (_ # evs) = elapsed evs"

subsection \<open>mockStreaming\<close>

text \<open>
  When the session's signal is aborted, seen from the session: never, while its
  \<open>k\<close>-th delay is pending (delays counted from 0), or at a moment when none of its
  delays is pending (before the call, or from inside one of its callbacks).
\<close>

datatype abort_time = Never | DuringDelay nat | OutsideDelays

text \<open>
  \<open>delay(ms, signal)\<close>, the \<open>k\<close>-th of the session: \<open>None\<close> when the timer runs to its end,
  \<open>Some\<close> the rejection otherwise. The listener is added when the delay starts and there
  is no look at \<open>signal.aborted\<close>, so only an abort event that fires while this delay is
  pending rejects it, with \<open>new DOMException('Aborted', 'AbortError')\<close>.
\<close>

definition delay :: "bool \<Rightarrow> abort_time \<Rightarrow> nat \<Rightarrow> thrown option" where
  "delay signal_given a k =
     (if signal_given \<and> a = DuringDelay k then Some (ErrorObj ''AbortError'' ''Aborted'')
      else None)"

text \<open>The statements of the \<open>try\<close> block of \<open>mockStreaming\<close>, in order.\<close>

datatype mock_step = Delay nat | Emit json | Finish

definition text_chunk :: "string \<Rightarrow> string \<Rightarrow> nat \<Rightarrow> json" where
  "text_chunk ty content now =
     JObj [(''type'', JStr ty), (''content'', JStr content), (''timestamp'', JNum (of_nat now))]"

definition toolStart_chunk :: json where
  "toolStart_chunk =
     JObj [(''type'', JStr ''toolStart''), (''run_id'', JStr ''tool_123''),
           (''message'', JObj [(''action'', JStr ''search''), (''param'', JStr ''web'')])]"

definition toolUsed_chunk :: "nat \<Rightarrow> json" where
  "toolUsed_chunk now =
     JObj [(''type'', JStr ''toolUsed''), (''run_id'', JStr ''tool_123''),
           (''result'', JObj [(''data'', JStr ''Sample result'')]),
           (''timestamp'', JNum (of_nat now))]"

definition mock_response :: "string \<Rightarrow> string" where
  "mock_response msg =
     ''This is a mock response to: \"'' @ msg @ ''\". In a real application, ''
     @ ''this would be the AI'' @ [CHR 0x27] @ ''s actual response based on your input.''"

text \<open>\<open>for (const word of words) { content += word + ' '; onChunk(...); await delay(100, signal) }\<close>\<close>

fun word_steps :: "string \<Rightarrow> nat \<Rightarrow> string list \<Rightarrow> mock_step list" where
  "word_steps content now [] = []"
| "word_steps content now (word # words) =
     Emit (text_chunk ''supervisor_streaming'' (content @ word @ '' '') now)
     # Delay 100 # word_steps (content @ word @ '' '') now words"

text \<open>\<open>now\<close> is the reading of \<open>Date.now()\<close>.\<close>

definition mock_script :: "string \<Rightarrow> nat \<Rightarrow> mock_step list" where
  "mock_script msg now =
     [Delay 500,
      Emit (text_chunk ''streaming'' ''Analyzing your question'' now),
      Delay 800,
      Emit (text_chunk ''streaming'' ''Searching for relevant information'' now),
      Delay 1000,
      Emit toolStart_chunk,
      Delay 1500,
      Emit (toolUsed_chunk now),
      Delay 500]
     @ word_steps [] now (split (CHR 0x20) (mock_response msg))
     @ [Finish]"

text \<open>Running the \<open>try\<close> block; \<open>k\<close> counts the delays started so far.\<close>

fun run_mock :: "bool \<Rightarrow> abort_time \<Rightarrow> nat \<Rightarrow> mock_step list \<Rightarrow> stream_event list \<times> outcome" where
  "run_mock signal_given a k [] = ([], Resolved)"
| "run_mock signal_given a k (Delay ms # steps) =
     (case delay signal_given a k of
        Some e \<Rightarrow> ([], Rejected e)
      | None \<Rightarrow>
          (let (evs, out) = run_mock signal_given a (k + 1) steps in (Timeout ms # evs, out)))"
| "run_mock signal_given a k (Emit chunk # steps) =
     (let (evs, out) = run_mock signal_given a k steps in (OnChunk chunk # evs, out))"
| "run_mock signal_given a k (Finish # steps) =
     (let (evs, out) = run_mock signal_given a k steps in (OnComplete # evs, out))"

definition mockStreaming_catch :: "stream_event list \<times> outcome \<Rightarrow> stream_event list \<times> outcome" where
  "mockStreaming_catch r =
     (case r of
        (evs, Rejected error) \<Rightarrow>
          if is_AbortError error then (evs @ [ConsoleLog ''Mock streaming aborted''], Resolved)
          else (evs @ [OnError (as_Error error)], Resolved)
      | (evs, out) \<Rightarrow> (evs, out))"

definition mockStreaming :: "streaming_config \<Rightarrow> nat \<Rightarrow> abort_time \<Rightarrow> stream_event list \<times> outcome" where
  "mockStreaming config now a =
     mockStreaming_catch (run_mock (has_signal config) a 0 (mock_script (message config) now))"

section \<open>Streaming hook (hooks/useStreaming)\<close>

record hook_options =
  given_onChunk :: bool
  given_onComplete :: bool
  given_onError :: bool
  enableRetry :: bool
  retryLimit :: nat

text \<open>
  The state and the refs of the hook, the store of abort controllers (index = address,
  value = \<open>signal.aborted\<close>), and what has been delivered to the consumer's callbacks.
\<close>

record hook_state =
  isStreaming :: bool
  error :: "thrown option"
  abortControllerRef :: "nat option"
  lastConfigRef :: "streaming_config option"
  retryCountRef :: nat
  abortControllers :: "bool list"
  delivered :: "stream_event list"

definition initial_hook_state :: hook_state where
  "initial_hook_state = \<lparr>isStreaming = False, error = None, abortControllerRef = None,
     lastConfigRef = None, retryCountRef = 0, abortControllers = [], delivered = []\<rparr>"

definition all_callbacks :: hook_options where
  "all_callbacks = \<lparr>given_onChunk = True, given_onComplete = True, given_onError = True,
     enableRetry = True, retryLimit = 3\<rparr>"

definition notify :: "bool \<Rightarrow> stream_event \<Rightarrow> hook_state \<Rightarrow> hook_state" where
  "notify given ev s = (if given then s\<lparr>delivered := delivered s @ [ev]\<rparr> else s)"

definition handleChunk :: "hook_options \<Rightarrow> json \<Rightarrow> hook_state \<Rightarrow> hook_state" where
  "handleChunk opts chunk s = notify (given_onChunk opts) (OnChunk chunk) s"

definition handleComplete :: "hook_options \<Rightarrow> hook_state \<Rightarrow> hook_state" where
  "handleComplete opts s =
     notify (given_onComplete opts) OnComplete
       (s\<lparr>isStreaming := False, error := None, retryCountRef := 0\<rparr>)"

definition handleError :: "hook_options \<Rightarrow> thrown \<Rightarrow> hook_state \<Rightarrow> hook_state" where
  "handleError opts err s =
     (let s1 = notify (given_onError opts) (OnError err)
                 (s\<lparr>isStreaming := False, error := Some err\<rparr>)
      in if enableRetry opts \<and> retryCountRef s1 < retryLimit opts
         then s1\<lparr>retryCountRef := retryCountRef s1 + 1\<rparr>
         else s1)"

text \<open>
  \<open>startStream\<close> up to \<open>await mockStreaming(...)\<close>: "Stop any existing stream" aborts the
  controller in the ref, if there is one; then a new controller is created and stored,
  the configuration is kept for a retry and the state is set. The result is the new
  controller and the state.
\<close>

definition startStream_open :: "streaming_config \<Rightarrow> hook_state \<Rightarrow> nat \<times> hook_state" where
  "startStream_open config s =
     (let s1 = (case abortControllerRef s of
                  Some c \<Rightarrow> s\<lparr>abortControllers := (abortControllers s)[c := True]\<rparr>
                | None \<Rightarrow> s);
          abortController = length (abortControllers s1)
      in (abortController,
          s1\<lparr>abortControllers := abortControllers s1 @ [False],
             abortControllerRef := Some abortController,
             lastConfigRef := Some config,
             isStreaming := True,
             error := None\<rparr>))"

text \<open>The callbacks the hook passes to the service.\<close>

definition deliver :: "hook_options \<Rightarrow> stream_event \<Rightarrow> hook_state \<Rightarrow> hook_state" where
  "deliver opts ev s =
     (case ev of
        OnChunk chunk \<Rightarrow> handleChunk opts chunk s
      | OnComplete \<Rightarrow> handleComplete opts s
      | OnError err \<Rightarrow> handleError opts err s
      | _ \<Rightarrow> s)"

text \<open>
  \<open>startStream\<close> with the session it awaits. \<open>a\<close> says when the new controller's signal is
  aborted (by a later \<open>stopStream\<close>, \<open>startStream\<close> or unmount). The \<open>catch\<close> around the
  await handles a rejection that is an \<open>Error\<close> other than an abort.
\<close>

definition startStream :: "hook_options \<Rightarrow> streaming_config \<Rightarrow> nat \<Rightarrow> abort_time \<Rightarrow> hook_state \<Rightarrow> hook_state" where
  "startStream opts config now a s =
     (let (abortController, s1) = startStream_open config s;
          (evs, out) = mockStreaming (config\<lparr>has_signal := True\<rparr>) now a;
          s2 = fold (deliver opts) evs s1
      in case out of
           Rejected (ErrorObj n m) \<Rightarrow>
             if n \<noteq> ''AbortError'' then handleError opts (ErrorObj n m) s2 else s2
         | _ \<Rightarrow> s2)"

definition stopStream :: "hook_state \<Rightarrow> hook_state" where
  "stopStream s =
     (let s1 = (case abortControllerRef s of
                  Some c \<Rightarrow> s\<lparr>abortControllers := (abortControllers s)[c := True],
                              abortControllerRef := None\<rparr>
                | None \<Rightarrow> s)
      in s1\<lparr>isStreaming := False, retryCountRef := 0\<rparr>)"

section \<open>Notions of the specification\<close>

text \<open>
  A decoder in stream mode gives, over the fragments of a byte stream, pieces of text
  whose concatenation is what it gives over the whole stream, and ends in the same
  state: it holds back an incomplete sequence until the bytes that complete it arrive.
\<close>

definition streaming_decoder :: "('d \<Rightarrow> 'b list \<Rightarrow> string \<times> 'd) \<Rightarrow> bool" where
  "streaming_decoder dec \<longleftrightarrow>
     (\<forall>d. dec d [] = ([], d))
     \<and> (\<forall>d a b. dec d (a @ b) =
            (let (x, d1) = dec d a; (y, d2) = dec d1 b in (x @ y, d2)))"

text \<open>
  The complete lines of a text are the pieces before each line feed; what follows the
  last line feed is not a complete line.
\<close>

definition complete_lines :: "string \<Rightarrow> string list" where
  "complete_lines text = butlast (split (CHR 0x0A) text)"

text \<open>
  The text of a text-delta chunk (\<open>IStreamingChunk\<close>, \<open>ISupervisorStreamingChunk\<close>): its
  \<open>content\<close>; any other chunk carries no such text.
\<close>

definition delta_content :: "json \<Rightarrow> string" where
  "delta_content chunk =
     (if get_prop chunk ''type'' = Some (JStr ''streaming'')
         \<or> get_prop chunk ''type'' = Some (JStr ''supervisor_streaming'')
      then (case get_prop chunk ''content'' of Some (JStr s) \<Rightarrow> s | _ \<Rightarrow> [])
      else [])"

text \<open>The content of the text-delta chunks handed to \<open>onChunk\<close>, concatenated in order.\<close>

fun emitted_text :: "stream_event list \<Rightarrow> string" where
  "emitted_text [] = []"
| "emitted_text (OnChunk chunk # evs) = delta_content chunk @ emitted_text evs"
| "emitted_text (_ # evs) = emitted_text evs"

text \<open>
  The decoded payload of a line, in the specification's words: the line stripped of
  the event prefix and parsed as a record, of which the text-delta content is taken;
  a blank line or one that does not parse has none.
\<close>

definition line_payload :: "(string \<Rightarrow> json option) \<Rightarrow> string \<Rightarrow> string" where
  "line_payload parse line =
     (if trim line = [] then []
      else (case parse (cleanedLine line) of None \<Rightarrow> [] | Some chunk \<Rightarrow> delta_content chunk))"

text \<open>
  A transport on which the session is cancelled: the fetch, or a read after any number
  of fragments, rejects with the abort error that aborting the signal produces.
\<close>

fun ends_aborted :: "'b read_result list \<Rightarrow> bool" where
  "ends_aborted [] = False"
| "ends_aborted (Value v # rs) = ends_aborted rs"
| "ends_aborted (Done # rs) = False"
| "ends_aborted (ReadRejects e # rs) = is_AbortError e"

fun cancelled :: "'b fetch_result \<Rightarrow> bool" where
  "cancelled (FetchRejects e) = is_AbortError e"
| "cancelled NoResponse = False"
| "cancelled (Response ok status body) =
     (ok \<and> (case body of None \<Rightarrow> False | Some rs \<Rightarrow> ends_aborted rs))"

text \<open>The invocations of the error callback among some events.\<close>

fun error_callbacks :: "stream_event list \<Rightarrow> thrown list" where
  "error_callbacks [] = []"
| "error_callbacks (OnError e # evs) = e # error_callbacks evs"
| "error_callbacks (_ # evs) = error_callbacks evs"

text \<open>
  At most one session per engine has a token that is not aborted: the one whose
  controller is in the ref.
\<close>

definition one_live_token :: "hook_state \<Rightarrow> bool" where
  "one_live_token s \<longleftrightarrow>
     (\<forall>c < length (abortControllers s).
        \<not> abortControllers s ! c \<longrightarrow> abortControllerRef s = Some c)"

text \<open>The event of a statement of the mock that runs to its end.\<close>

fun step_event :: "mock_step \<Rightarrow> stream_event" where
  "step_event (Delay ms) = Timeout ms"
| "step_event (Emit chunk) = OnChunk chunk"
| "step_event Finish = OnComplete"

text \<open>Of the events of a session, those that the hook hands on to its consumer.\<close>

fun is_hook_callback :: "stream_event \<Rightarrow> bool" where
  "is_hook_callback (OnChunk chunk) = True"
| "is_hook_callback OnComplete = True"
| "is_hook_callback (OnError e) = True"
| "is_hook_callback _ = False"

definition hook_callbacks :: "stream_event list \<Rightarrow> stream_event list" where
  "hook_callbacks evs = filter is_hook_callback evs"

section \<open>Concrete inputs\<close>

text \<open>An image file that passes validation, and a batch with one entry halfway uploaded.\<close>

definition img :: "string \<Rightarrow> file_obj" where
  "img n = \<lparr>file_name = n, file_type = ''image/png'', file_size = 1000\<rparr>"

definition entry :: "string \<Rightarrow> extended_file" where
  "entry uid = \<lparr>fileRef = img ''a.png'', filename = ''1_a-png'', cdnUrl = None,
     isUploading = Some True, uploadId = uid, uploadAbortController = Some 0,
     uploadProgress = Some 50, uploadError = None\<rparr>"

definition one_uploading :: upload_state where
  "one_uploading = \<lparr>uploadedFiles = [entry ''upload_1_1''], uploadCounter = 1,
     controllers = [False], trace = []\<rparr>"

text \<open>The default options with room for two files.\<close>

definition two_max :: upload_options where
  "two_max = default_options\<lparr>maxFiles := 2\<rparr>"

text \<open>
  A parser that knows two JSON texts, a decoder for one-byte characters, a
  configuration and a stream of three complete lines and an unfinished one.
\<close>

definition toy_parse :: "string \<Rightarrow> json option" where
  "toy_parse s =
     (if s = ''{\"type\":\"streaming\",\"content\":\"Hi\"}''
      then Some (JObj [(''type'', JStr ''streaming''), (''content'', JStr ''Hi'')])
      else if s = ''null'' then Some JNull
      else None)"

definition byte_decoder :: "unit \<Rightarrow> char list \<Rightarrow> string \<times> unit" where
  "byte_decoder d bytes = (bytes, d)"

definition plain_config :: streaming_config where
  "plain_config = \<lparr>message = ''Hello'', has_onThreadIdChange = False, has_signal = True\<rparr>"

definition sample_stream :: string where
  "sample_stream = ''data: {\"type\":\"streaming\",\"content\":\"Hi\"}'' @ [CHR 0x0A]
     @ ''data: {oops'' @ [CHR 0x0A] @ ''null'' @ [CHR 0x0A] @ ''tail''"

text \<open>A transport that delivers one line and is then aborted by the user.\<close>

definition cancelled_response :: "char fetch_result" where
  "cancelled_response =
     Response True 200
       (Some [Value (''data: {\"type\":\"streaming\",\"content\":\"Hi\"}'' @ [CHR 0x0A]),
              ReadRejects (ErrorObj ''AbortError'' ''The user aborted a request.'')])"

text \<open>An engine on which one session has been opened and has not ended.\<close>

definition open_session :: hook_state where
  "open_session = snd (startStream_open plain_config initial_hook_state)"

text \<open>A transport that fails twice and then answers with an empty stream.\<close>

definition flaky_transport :: "nat \<Rightarrow> char fetch_result" where
  "flaky_transport attempt =
     (if attempt < 2 then FetchRejects (ErrorObj ''TypeError'' ''Failed to fetch'')
      else Response True 200 (Some [Done]))"

text \<open>
  One image enqueued into the empty batch with the default options, and its first
  progress report delivered.
\<close>

definition uploading_one :: upload_state where
  "uploading_one =
     run_task default_options ''upload_1700_1'' (take 1 (uploadFile (img ''a.png'') ''g''))
       (snd (uploadFiles default_options 1700 id [] [img ''a.png''] initial_upload_state))"

section \<open>Properties of the upload manager\<close>

subsection \<open>Updates keyed on an identifier\<close>

lemma updateFile_absent:
  assumes "uid \<notin> uploadId ` set (uploadedFiles s)"
  shows "updateFile uid updates s = s"
proof -
  have "map (\<lambda>f. if uploadId f = uid then spread f updates else f) (uploadedFiles s)
        = uploadedFiles s"
    using assms by (intro map_idI) auto
  then show ?thesis by (simp add: updateFile_def)
qed

lemma uploadedFiles_emit [simp]: "uploadedFiles (emit b e s) = uploadedFiles s"
  by (simp add: emit_def)

lemma length_updateFile [simp]:
  "length (uploadedFiles (updateFile uid u s)) = length (uploadedFiles s)"
  by (simp add: updateFile_def)

lemma task_step_absent:
  assumes "uid \<notin> uploadId ` set (uploadedFiles s)"
  shows "uploadedFiles (task_step opts uid step s) = uploadedFiles s"
  using assms by (cases step) (simp_all add: updateFile_absent upload_failed_def Let_def)

lemma run_task_absent:
  assumes "uid \<notin> uploadId ` set (uploadedFiles s)"
  shows "uploadedFiles (run_task opts uid steps s) = uploadedFiles s"
  using assms unfolding run_task_def
  by (induction steps arbitrary: s) (simp_all add: task_step_absent)

text \<open>
  The two operations that remove entries: what is left of the batch, and that the
  identifier of a removed entry is no longer in it.
\<close>

lemma map_filter_drop:
  "List.map_filter (\<lambda>f. if P f then None else Some f) xs = filter (\<lambda>f. \<not> P f) xs"
  by (induction xs) (simp_all add: List.map_filter_simps)

lemma uploadedFiles_cancelUpload:
  "uploadedFiles (cancelUpload uid s) = filter (\<lambda>f. \<not> cancel_hit uid f) (uploadedFiles s)"
  by (simp add: cancelUpload_def Let_def map_filter_drop)

lemma cancelUpload_removes_identifier:
  assumes "\<And>f. f \<in> set (uploadedFiles s) \<Longrightarrow> uploadId f = uid \<Longrightarrow> truthy_bool (isUploading f)"
  shows "uid \<notin> uploadId ` set (uploadedFiles (cancelUpload uid s))"
  using assms by (auto simp: uploadedFiles_cancelUpload cancel_hit_def)

lemma filter_enumerate_drop:
  "map snd (filter (\<lambda>(j, _). j \<noteq> n + i) (enumerate n xs)) = take i xs @ drop (Suc i) xs"
proof (induction xs arbitrary: n i)
  case Nil
  then show ?case by simp
next
  case (Cons x xs)
  show ?case
  proof (cases i)
    case 0
    have "filter (\<lambda>(j, _). j \<noteq> n) (enumerate (Suc n) xs) = enumerate (Suc n) xs"
      by (auto simp: filter_id_conv in_set_enumerate_eq)
    then show ?thesis using 0 by simp
  next
    case (Suc k)
    then show ?thesis using Cons.IH [of "Suc n" k] by simp
  qed
qed

lemma uploadedFiles_deleteFile:
  "uploadedFiles (deleteFile index s)
     = take index (uploadedFiles s) @ drop (Suc index) (uploadedFiles s)"
  using filter_enumerate_drop [of 0 index "uploadedFiles s"]
  by (simp add: deleteFile_def Let_def)

lemma deleteFile_removes_identifier:
  assumes "index < length (uploadedFiles s)" and "distinct (map uploadId (uploadedFiles s))"
  shows "uploadId (uploadedFiles s ! index) \<notin> uploadId ` set (uploadedFiles (deleteFile index s))"
proof -
  let ?xs = "map uploadId (uploadedFiles s)"
  have "index < length ?xs" using assms(1) by simp
  then have "?xs = take index ?xs @ ?xs ! index # drop (Suc index) ?xs"
    by (rule id_take_nth_drop)
  then have "distinct (take index ?xs @ ?xs ! index # drop (Suc index) ?xs)"
    using assms(2) by metis
  then have "?xs ! index \<notin> set (take index ?xs @ drop (Suc index) ?xs)"
    by auto
  then show ?thesis
    using assms(1) by (simp add: uploadedFiles_deleteFile take_map drop_map image_Un)
qed

text \<open>
  Claim C10. When the identifier is not in the batch, \<open>updateFile\<close> with any update
  returns the state as it was, and every resumption of the upload task keyed on that
  identifier (a progress report, the success update, the failure update), alone or in
  a run, leaves the batch as it was, entry for entry, so also in length. An entry that
  was removed (\<open>cancelUpload_removes_identifier\<close>, \<open>deleteFile_removes_identifier\<close>) is
  neither brought back nor changed by a callback that arrives late.
\<close>

theorem late_updates_leave_batch_unchanged:
  assumes "uid \<notin> uploadId ` set (uploadedFiles s)"
  shows "updateFile uid updates s = s
       \<and> uploadedFiles (task_step opts uid step s) = uploadedFiles s
       \<and> uploadedFiles (run_task opts uid steps s) = uploadedFiles s"
  using assms by (simp add: updateFile_absent task_step_absent run_task_absent)

theorem late_updates_leave_batch_unchanged_witness:
  "''upload_1_2'' \<notin> uploadId ` set (uploadedFiles one_uploading)
   \<and> updateFile ''upload_1_2'' (no_updates\<lparr>p_uploadProgress := Some (Some 70)\<rparr>) one_uploading
       = one_uploading
   \<and> uploadedFiles (task_step default_options ''upload_1_2'' (Reject ThrownOther) one_uploading)
       = uploadedFiles one_uploading
   \<and> uploadedFiles (run_task default_options ''upload_1_2'' (uploadFile (img ''a.png'') ''g'')
         one_uploading) = uploadedFiles one_uploading"
proof -
  have h: "''upload_1_2'' \<notin> uploadId ` set (uploadedFiles one_uploading)"
    by (simp add: one_uploading_def entry_def)
  show ?thesis
    using h late_updates_leave_batch_unchanged [OF h,
        of "no_updates\<lparr>p_uploadProgress := Some (Some 70)\<rparr>"
           default_options "Reject ThrownOther" "uploadFile (img ''a.png'') ''g''"]
    by blast
qed

subsection \<open>cancelUpload\<close>

lemma abort_hits_length [simp]: "length (controllers (abort_hits uid fs s)) = length (controllers s)"
  unfolding abort_hits_def
  by (induction fs arbitrary: s) (auto simp: abort_def split: option.splits)

lemma abort_hits_keeps:
  "signal_aborted s c \<Longrightarrow> signal_aborted (abort_hits uid fs s) c"
  unfolding abort_hits_def
proof (induction fs arbitrary: s)
  case Nil
  then show ?case by simp
next
  case (Cons f fs)
  have "signal_aborted (abort d s) c" for d
    using Cons.prems by (cases "d = c") (auto simp: signal_aborted_def abort_def)
  with Cons show ?case by (auto split: option.splits)
qed

lemma abort_hits_aborts:
  assumes "f \<in> set fs" "cancel_hit uid f" "uploadAbortController f = Some c"
    "c < length (controllers s)"
  shows "signal_aborted (abort_hits uid fs s) c"
  using assms
proof (induction fs arbitrary: s)
  case Nil
  then show ?case by simp
next
  case (Cons g gs)
  show ?case
  proof (cases "g = f")
    case True
    have "signal_aborted (abort c s) c"
      using Cons.prems by (simp add: signal_aborted_def abort_def)
    then have "signal_aborted (abort_hits uid gs (abort c s)) c"
      by (rule abort_hits_keeps)
    then show ?thesis using True Cons.prems by (simp add: abort_hits_def)
  next
    case False
    then have "f \<in> set gs" using Cons.prems by simp
    moreover have "c < length (controllers (abort d s))" for d
      using Cons.prems by (simp add: abort_def)
    ultimately show ?thesis
      using Cons.IH Cons.prems by (auto simp: abort_hits_def split: option.splits)
  qed
qed

lemma controllers_cancelUpload:
  "controllers (cancelUpload uid s) = controllers (abort_hits uid (uploadedFiles s) s)"
  by (simp add: cancelUpload_def Let_def)

lemma distinct_key_filter_length:
  "distinct (map k xs) \<Longrightarrow> x \<in> set xs \<Longrightarrow> length (filter (\<lambda>g. k g = k x) xs) = 1"
proof (induction xs)
  case Nil
  then show ?case by simp
next
  case (Cons y ys)
  show ?case
  proof (cases "y = x")
    case True
    then have "k x \<notin> k ` set ys"
      using Cons.prems by simp
    then have "\<And>g. g \<in> set ys \<Longrightarrow> k g \<noteq> k x"
      by (metis imageI)
    then have "filter (\<lambda>g. k g = k x) ys = []"
      by (simp add: filter_empty_conv)
    then show ?thesis using True by simp
  next
    case False
    then have "x \<in> set ys" using Cons.prems by simp
    moreover from this have "k y \<noteq> k x" using Cons.prems by auto
    ultimately show ?thesis using Cons by simp
  qed
qed

lemma cancel_one: "cancelUpload ''upload_1_1'' one_uploading
   = \<lparr>uploadedFiles = [], uploadCounter = 1, controllers = [True], trace = []\<rparr>"
  by (simp add: cancelUpload_def abort_hits_def one_uploading_def entry_def cancel_hit_def
        truthy_bool_def abort_def List.map_filter_simps)

text \<open>
  Claim C4, as stated, at the batch with one uploading entry: the claim keeps the batch
  length under \<open>cancelUpload\<close>; the code returns \<open>null\<close> for the entry ("Remove from list")
  and filters it out, so the length goes from one to zero.
\<close>

theorem cancelUpload_keeps_record_counterexample:
  "length (uploadedFiles (cancelUpload ''upload_1_1'' one_uploading))
     \<noteq> length (uploadedFiles one_uploading)"
  by (simp add: cancel_one) (simp add: one_uploading_def)

text \<open>
  Claim C4, amended. For an entry in uploading status (identifiers being distinct),
  \<open>cancelUpload\<close> with its identifier removes exactly that entry from the batch: the
  batch loses one entry, no entry with that identifier remains, the entry is not
  among the files reported as uploaded, and its abort controller is aborted. No record
  of the cancelled entry stays behind; the data model has no cancelled status.
\<close>

theorem cancelUpload_removes_entry:
  assumes "f \<in> set (uploadedFiles s)" and "uploadId f = uid"
    and "truthy_bool (isUploading f)"
    and "distinct (map uploadId (uploadedFiles s))"
  shows "uploadedFiles (cancelUpload uid s) = filter (\<lambda>g. uploadId g \<noteq> uid) (uploadedFiles s)
       \<and> length (uploadedFiles (cancelUpload uid s)) + 1 = length (uploadedFiles s)
       \<and> uid \<notin> uploadId ` set (uploadedFiles (cancelUpload uid s))
       \<and> f \<notin> set (successfulFiles (uploadedFiles (cancelUpload uid s)))
       \<and> (\<forall>c. uploadAbortController f = Some c \<and> c < length (controllers s)
              \<longrightarrow> signal_aborted (cancelUpload uid s) c)"
proof -
  have only: "g = f" if "g \<in> set (uploadedFiles s)" "uploadId g = uid" for g
    using that assms(1,2,4) by (metis distinct_map inj_onD)
  have hit: "cancel_hit uid g \<longleftrightarrow> uploadId g = uid" if "g \<in> set (uploadedFiles s)" for g
    using only [OF that] assms(3) by (auto simp: cancel_hit_def)
  have 1: "uploadedFiles (cancelUpload uid s) = filter (\<lambda>g. uploadId g \<noteq> uid) (uploadedFiles s)"
    unfolding uploadedFiles_cancelUpload using hit by (intro filter_cong) auto
  have "length (filter (\<lambda>g. uploadId g = uploadId f) (uploadedFiles s)) = 1"
    using assms(1,4) by (intro distinct_key_filter_length)
  moreover have "length (filter (\<lambda>g. uploadId g = uid) (uploadedFiles s))
      + length (filter (\<lambda>g. \<not> uploadId g = uid) (uploadedFiles s)) = length (uploadedFiles s)"
    by (rule sum_length_filter_compl)
  ultimately have 2: "length (uploadedFiles (cancelUpload uid s)) + 1 = length (uploadedFiles s)"
    using 1 assms(2) by simp
  have 3: "uid \<notin> uploadId ` set (uploadedFiles (cancelUpload uid s))"
    unfolding 1 by auto
  then have 4: "f \<notin> set (successfulFiles (uploadedFiles (cancelUpload uid s)))"
    using assms(2) by (auto simp: successfulFiles_def)
  have 5: "signal_aborted (cancelUpload uid s) c"
    if "uploadAbortController f = Some c" "c < length (controllers s)" for c
  proof -
    have "cancel_hit uid f" using assms(2,3) by (simp add: cancel_hit_def)
    then have "signal_aborted (abort_hits uid (uploadedFiles s) s) c"
      using assms(1) that by (intro abort_hits_aborts [of f])
    then show ?thesis by (simp add: signal_aborted_def controllers_cancelUpload)
  qed
  show ?thesis using 1 2 3 4 5 by blast
qed

theorem cancelUpload_removes_entry_witness:
  "entry ''upload_1_1'' \<in> set (uploadedFiles one_uploading)
   \<and> uploadId (entry ''upload_1_1'') = ''upload_1_1''
   \<and> truthy_bool (isUploading (entry ''upload_1_1''))
   \<and> distinct (map uploadId (uploadedFiles one_uploading))
   \<and> uploadedFiles (cancelUpload ''upload_1_1'' one_uploading) = []
   \<and> length (uploadedFiles (cancelUpload ''upload_1_1'' one_uploading)) + 1 = 1
   \<and> signal_aborted (cancelUpload ''upload_1_1'' one_uploading) 0"
proof -
  have h1: "entry ''upload_1_1'' \<in> set (uploadedFiles one_uploading)"
    by (simp add: one_uploading_def)
  have h2: "uploadId (entry ''upload_1_1'') = ''upload_1_1''"
    by (simp add: entry_def)
  have h3: "truthy_bool (isUploading (entry ''upload_1_1''))"
    by (simp add: entry_def truthy_bool_def)
  have h4: "distinct (map uploadId (uploadedFiles one_uploading))"
    by (simp add: one_uploading_def)
  have c: "uploadAbortController (entry ''upload_1_1'') = Some 0 \<and> 0 < length (controllers one_uploading)"
    by (simp add: entry_def one_uploading_def)
  have l: "length (uploadedFiles one_uploading) = 1" "filter (\<lambda>g. uploadId g \<noteq> ''upload_1_1'') (uploadedFiles one_uploading) = []"
    by (simp_all add: one_uploading_def entry_def)
  show ?thesis
    using cancelUpload_removes_entry [OF h1 h2 h3 h4] h1 h2 h3 h4 c l by auto
qed

subsection \<open>retryUpload\<close>

lemma spread_as_updates:
  "spread g (as_updates t)
     = t\<lparr>cdnUrl := (case cdnUrl t of None \<Rightarrow> cdnUrl g | Some url \<Rightarrow> Some url)\<rparr>"
  by (simp add: spread_def as_updates_def split: option.splits)

lemma retryUpload_absent:
  assumes "uid \<notin> uploadId ` set rendered"
  shows "retryUpload rendered uid s
           = (None, s\<lparr>trace := trace s @ [ConsoleError ''File not found for retry'']\<rparr>)"
proof -
  have "find (\<lambda>f. uploadId f = uid) rendered = None"
    using assms by (auto simp: find_None_iff)
  then show ?thesis by (simp add: retryUpload_def)
qed

lemma retryUpload_present:
  assumes "find (\<lambda>f. uploadId f = uid) rendered = Some f"
  shows "retryUpload rendered uid s =
     (Some (updatedFile f (length (controllers s))),
      s\<lparr>controllers := controllers s @ [False],
        uploadedFiles :=
          map (\<lambda>g. if uploadId g = uid
                    then spread g (as_updates (updatedFile f (length (controllers s))))
                    else g) (uploadedFiles s)\<rparr>)"
  using assms
  by (simp add: retryUpload_def new_AbortController_def Let_def updateFile_def updatedFile_def
      processFileUpload_starts_def signal_aborted_def nth_append)

lemma retry_one:
  "retryUpload (uploadedFiles one_uploading) ''upload_1_1'' one_uploading =
     (Some ((entry ''upload_1_1'')\<lparr>uploadAbortController := Some 1, uploadProgress := Some 0\<rparr>),
      one_uploading\<lparr>uploadedFiles :=
          [(entry ''upload_1_1'')\<lparr>uploadAbortController := Some 1, uploadProgress := Some 0\<rparr>],
        controllers := [False, False]\<rparr>)"
  by (simp add: retryUpload_def one_uploading_def entry_def new_AbortController_def
      updateFile_def updatedFile_def processFileUpload_starts_def signal_aborted_def Let_def
      spread_def as_updates_def)

text \<open>
  On a render that no longer shows the current batch the lookup and the update part
  ways: after \<open>cancelUpload\<close> has emptied the batch, \<open>retryUpload\<close> from the render before
  it still finds the entry and starts a task, and the batch stays empty.
\<close>

lemma retryUpload_on_earlier_render:
  "fst (retryUpload (uploadedFiles one_uploading) ''upload_1_1''
          (cancelUpload ''upload_1_1'' one_uploading)) \<noteq> None
   \<and> uploadedFiles (snd (retryUpload (uploadedFiles one_uploading) ''upload_1_1''
          (cancelUpload ''upload_1_1'' one_uploading))) = []"
  unfolding cancel_one
  by (simp add: retryUpload_def one_uploading_def entry_def new_AbortController_def
      updateFile_def updatedFile_def processFileUpload_starts_def signal_aborted_def Let_def)

text \<open>
  Claim C3, as stated, at an entry that is uploading and has no error, on a render
  that shows the current batch: the claim makes \<open>retryUpload\<close> a no-op there; the code
  looks the entry up by identifier only, resets its progress from 50 to 0 and starts
  a new upload task.
\<close>

theorem retryUpload_noop_counterexample:
  "\<not> truthy_str (uploadError (entry ''upload_1_1''))
   \<and> fst (retryUpload (uploadedFiles one_uploading) ''upload_1_1'' one_uploading) \<noteq> None
   \<and> map uploadProgress
        (uploadedFiles (snd (retryUpload (uploadedFiles one_uploading) ''upload_1_1''
           one_uploading))) = [Some 0]
   \<and> map uploadProgress (uploadedFiles one_uploading) = [Some 50]"
  unfolding retry_one by (simp add: one_uploading_def entry_def truthy_str_def)

text \<open>
  Claim C3, amended. For a call of \<open>retryUpload\<close> made on a render that shows the
  current batch: the batch length and every entry with another identifier are
  unchanged. When the identifier is not in the batch, nothing in the batch changes and
  no task is started. When the identifier is in the batch, whatever the status of its
  entry, the entry is reset (uploading, progress 0, no error, a fresh abort controller
  that is not aborted) and its upload task is started again.
\<close>

theorem retryUpload_resets_any_present_entry:
  assumes "rendered = uploadedFiles s"
  shows "length (uploadedFiles (snd (retryUpload rendered uid s))) = length (uploadedFiles s)
   \<and> (\<forall>i < length (uploadedFiles s). uploadId (uploadedFiles s ! i) \<noteq> uid
         \<longrightarrow> uploadedFiles (snd (retryUpload rendered uid s)) ! i = uploadedFiles s ! i)
   \<and> (uid \<notin> uploadId ` set (uploadedFiles s)
         \<longrightarrow> fst (retryUpload rendered uid s) = None
           \<and> uploadedFiles (snd (retryUpload rendered uid s)) = uploadedFiles s
           \<and> controllers (snd (retryUpload rendered uid s)) = controllers s)
   \<and> (uid \<in> uploadId ` set (uploadedFiles s)
         \<longrightarrow> (\<exists>t. fst (retryUpload rendered uid s) = Some t
                \<and> uploadId t = uid \<and> isUploading t = Some True \<and> uploadProgress t = Some 0
                \<and> uploadError t = None
                \<and> uploadAbortController t = Some (length (controllers s))
                \<and> \<not> signal_aborted (snd (retryUpload rendered uid s)) (length (controllers s))
                \<and> (\<forall>g \<in> set (uploadedFiles (snd (retryUpload rendered uid s))).
                      uploadId g = uid \<longrightarrow>
                        isUploading g = Some True \<and> uploadProgress g = Some 0
                        \<and> uploadError g = None
                        \<and> uploadAbortController g = Some (length (controllers s)))))"
proof (cases "find (\<lambda>f. uploadId f = uid) rendered")
  case None
  then have "uid \<notin> uploadId ` set rendered"
    by (auto simp: find_None_iff)
  then show ?thesis using assms by (simp add: retryUpload_absent)
next
  case (Some f)
  then have f: "uploadId f = uid" "f \<in> set rendered"
    by (auto simp: find_Some_iff)
  then have "uid \<in> uploadId ` set (uploadedFiles s)" using assms by auto
  moreover have "uploadId (updatedFile f (length (controllers s))) = uid"
    using f by (simp add: updatedFile_def)
  ultimately show ?thesis
    unfolding retryUpload_present [OF Some]
    by (auto simp: updatedFile_def signal_aborted_def nth_append spread_as_updates)
qed

theorem retryUpload_resets_any_present_entry_witness:
  "''upload_1_1'' \<in> uploadId ` set (uploadedFiles one_uploading)
   \<and> ''upload_9_9'' \<notin> uploadId ` set (uploadedFiles one_uploading)
   \<and> fst (retryUpload (uploadedFiles one_uploading) ''upload_9_9'' one_uploading) = None
   \<and> uploadedFiles (snd (retryUpload (uploadedFiles one_uploading) ''upload_9_9'' one_uploading))
       = uploadedFiles one_uploading
   \<and> fst (retryUpload (uploadedFiles one_uploading) ''upload_1_1'' one_uploading) \<noteq> None
   \<and> length (uploadedFiles
        (snd (retryUpload (uploadedFiles one_uploading) ''upload_1_1'' one_uploading))) = 1"
proof -
  have h1: "''upload_1_1'' \<in> uploadId ` set (uploadedFiles one_uploading)"
    and h2: "''upload_9_9'' \<notin> uploadId ` set (uploadedFiles one_uploading)"
    and l: "length (uploadedFiles one_uploading) = 1"
    by (simp_all add: one_uploading_def entry_def)
  show ?thesis
    using retryUpload_resets_any_present_entry [OF refl, of one_uploading "''upload_9_9''"]
      retryUpload_resets_any_present_entry [OF refl, of one_uploading "''upload_1_1''"] h1 h2 l
    by auto
qed

subsection \<open>uploadFiles\<close>

lemma make_extended_facts:
  "map fileRef (fst (make_extended now slugify fs s)) = fs
   \<and> uploadedFiles (snd (make_extended now slugify fs s)) = uploadedFiles s
   \<and> trace (snd (make_extended now slugify fs s)) = trace s"
  by (induction fs arbitrary: s)
     (simp_all add: generateUploadId_def new_AbortController_def Let_def split_beta)

lemma length_make_extended [simp]:
  "length (fst (make_extended now slugify fs s)) = length fs"
  using make_extended_facts [of now slugify fs s] by (metis length_map)

lemma validate_files_all_valid:
  assumes "\<forall>f \<in> set files. file_type f \<in> set (allowedTypes opts) \<and> fst (validateFile f)"
  shows "validate_files opts files = (files, [])"
  using assms by (induction files) (auto split: prod.splits bool.splits)

lemma trace_emit: "trace (emit b e s) = trace s @ (if b then [e] else [])"
  by (simp add: emit_def)

lemma uploadFiles_full:
  assumes "maxFiles opts \<le> int (length rendered)"
  shows "uploadFiles opts now slugify rendered files s =
      ([], emit (has_onUploadError opts) (OnUploadError MAX_FILES_EXCEEDED) s)"
  using assms by (simp add: uploadFiles_def)

lemma uploadFiles_appends:
  "uploadedFiles (snd (uploadFiles opts now slugify rendered files s))
     = uploadedFiles s @ fst (uploadFiles opts now slugify rendered files s)"
  by (simp add: uploadFiles_def Let_def split_beta make_extended_facts)

lemma uploadFiles_accepts_at_most:
  assumes "int (length rendered) < maxFiles opts"
  shows "int (length (fst (uploadFiles opts now slugify rendered files s)))
           \<le> maxFiles opts - int (length rendered)"
  using assms by (auto simp: uploadFiles_def Let_def split_beta min_def)

lemma uploadFiles_all_valid:
  assumes "int (length rendered) < maxFiles opts"
    and "\<forall>f \<in> set files. file_type f \<in> set (allowedTypes opts) \<and> fst (validateFile f)"
  shows "map fileRef (fst (uploadFiles opts now slugify rendered files s))
           = take (nat (maxFiles opts - int (length rendered))) files
       \<and> trace (snd (uploadFiles opts now slugify rendered files s)) = trace s"
  using assms(1) validate_files_all_valid [OF assms(2)]
  by (simp add: uploadFiles_def Let_def split_beta make_extended_facts)

lemma string_of_nat_1700: "string_of_nat 1700 = ''1700''" "string_of_nat (Suc (Suc 0)) = ''2''"
  by (simp_all add: string_of_nat.simps digit_char_def)

lemma upload_two_into_one:
  "uploadFiles two_max 1700 id (uploadedFiles one_uploading) [img ''b.png'', img ''c.png'']
     one_uploading =
     ([\<lparr>fileRef = img ''b.png'', filename = ''1700_b.png'', cdnUrl = None,
        isUploading = Some True, uploadId = ''upload_1700_2'', uploadAbortController = Some 1,
        uploadProgress = Some 0, uploadError = None\<rparr>],
      one_uploading\<lparr>uploadedFiles := [entry ''upload_1_1'',
         \<lparr>fileRef = img ''b.png'', filename = ''1700_b.png'', cdnUrl = None,
        isUploading = Some True, uploadId = ''upload_1700_2'', uploadAbortController = Some 1,
        uploadProgress = Some 0, uploadError = None\<rparr>], uploadCounter := 2,
        controllers := [False, False]\<rparr>)"
  by (simp add: uploadFiles_def two_max_def default_options_def one_uploading_def img_def
      validateFile_def ALLOWED_FILE_TYPES_def MAX_FILE_SIZE_def Let_def
      generateUploadId_def new_AbortController_def generateSafeFilename_def string_of_nat_1700)

text \<open>
  Two calls made on the same render of the empty batch, with a maximum of two and two
  valid files each: both read the length 0, both accept their two files.
\<close>

lemma two_calls_on_one_render:
  "length (uploadedFiles
     (snd (uploadFiles two_max 1701 id [] [img ''d.png'', img ''e.png'']
        (snd (uploadFiles two_max 1700 id [] [img ''b.png'', img ''c.png'']
           initial_upload_state))))) = 4"
proof -
  have v: "\<forall>f \<in> set [img n, img m]. file_type f \<in> set (allowedTypes two_max) \<and> fst (validateFile f)"
    for n m
    by (simp add: two_max_def default_options_def img_def validateFile_def
        ALLOWED_FILE_TYPES_def MAX_FILE_SIZE_def)
  have lt: "int (length ([] :: extended_file list)) < maxFiles two_max"
    by (simp add: two_max_def)
  have "map fileRef (fst (uploadFiles two_max now id [] [img n, img m] s)) = [img n, img m]"
    for now n m s
    using uploadFiles_all_valid [OF lt v, of now id n m s] by (simp add: two_max_def)
  then have "length (fst (uploadFiles two_max now id [] [img n, img m] s)) = 2" for now n m s
    by (metis length_map length_Cons list.size(3) numeral_2_eq_2)
  then show ?thesis
    by (simp add: uploadFiles_appends initial_upload_state_def)
qed

text \<open>
  Claim C2, as stated. With a maximum of two, one entry in the batch (one slot left)
  and two valid files, on a render that shows the current batch: the claim has the
  second file reported as a capacity error; the code slices the valid files to the
  free slots, appends the first and invokes no callback at all. And the claim bounds
  the batch for every call; two calls made on the same render leave four entries in
  the batch.
\<close>

theorem uploadFiles_overflow_unreported_counterexample:
  "map fileRef (fst (uploadFiles two_max 1700 id (uploadedFiles one_uploading)
       [img ''b.png'', img ''c.png''] one_uploading)) = [img ''b.png'']
   \<and> trace (snd (uploadFiles two_max 1700 id (uploadedFiles one_uploading)
       [img ''b.png'', img ''c.png''] one_uploading)) = []
   \<and> maxFiles two_max = 2
   \<and> length (uploadedFiles
       (snd (uploadFiles two_max 1701 id [] [img ''d.png'', img ''e.png'']
          (snd (uploadFiles two_max 1700 id [] [img ''b.png'', img ''c.png'']
             initial_upload_state))))) = 4"
  unfolding upload_two_into_one two_calls_on_one_render
  by (simp add: one_uploading_def two_max_def)

text \<open>
  Claim C2, amended. For a call of \<open>uploadFiles\<close> made on a render that shows the
  current batch: the batch after the call is the batch before followed by the
  accepted entries, and a batch within the maximum stays within it. When no slot
  remains, nothing is accepted and the capacity error is reported. When slots remain
  and every candidate is valid, the accepted entries are the first \<open>M\<close> candidates,
  \<open>M\<close> being the number of free slots (exactly \<open>M\<close> when there are more candidates than
  slots), and nothing is reported: the candidates beyond the free slots are dropped
  without an error.
\<close>

theorem uploadFiles_capacity:
  assumes "uploadFiles opts now slugify rendered files s = (efs, s')"
    and "length rendered = length (uploadedFiles s)"
  shows "(int (length (uploadedFiles s)) \<le> maxFiles opts
            \<longrightarrow> int (length (uploadedFiles s')) \<le> maxFiles opts)
       \<and> uploadedFiles s' = uploadedFiles s @ efs
       \<and> (maxFiles opts \<le> int (length (uploadedFiles s))
            \<longrightarrow> efs = []
              \<and> trace s' = trace s @ (if has_onUploadError opts
                                        then [OnUploadError MAX_FILES_EXCEEDED] else []))
       \<and> (int (length (uploadedFiles s)) < maxFiles opts
          \<and> (\<forall>f \<in> set files. file_type f \<in> set (allowedTypes opts) \<and> fst (validateFile f))
            \<longrightarrow> map fileRef efs = take (nat (maxFiles opts - int (length (uploadedFiles s)))) files
              \<and> (maxFiles opts - int (length (uploadedFiles s)) < int (length files)
                   \<longrightarrow> int (length efs) = maxFiles opts - int (length (uploadedFiles s)))
              \<and> trace s' = trace s)"
proof -
  note len = assms(2)
  have efs: "efs = fst (uploadFiles opts now slugify rendered files s)"
    and s': "s' = snd (uploadFiles opts now slugify rendered files s)"
    using assms(1) by simp_all
  have app: "uploadedFiles s' = uploadedFiles s @ efs"
    unfolding efs s' by (rule uploadFiles_appends)
  have bound: "int (length (uploadedFiles s')) \<le> maxFiles opts"
    if "int (length (uploadedFiles s)) \<le> maxFiles opts"
  proof (cases "int (length rendered) < maxFiles opts")
    case True
    from uploadFiles_accepts_at_most [OF this, of now slugify files s]
    show ?thesis unfolding app efs using len by simp
  next
    case False
    then have "efs = []" unfolding efs by (simp add: uploadFiles_full)
    then show ?thesis using that app by simp
  qed
  have full: "efs = [] \<and> trace s' = trace s @ (if has_onUploadError opts
                                        then [OnUploadError MAX_FILES_EXCEEDED] else [])"
    if "maxFiles opts \<le> int (length (uploadedFiles s))"
  proof -
    from that have "maxFiles opts \<le> int (length rendered)" using len by simp
    then show ?thesis
      unfolding efs s' by (simp add: uploadFiles_full trace_emit)
  qed
  have valid: "map fileRef efs = take (nat (maxFiles opts - int (length (uploadedFiles s)))) files
              \<and> (maxFiles opts - int (length (uploadedFiles s)) < int (length files)
                   \<longrightarrow> int (length efs) = maxFiles opts - int (length (uploadedFiles s)))
              \<and> trace s' = trace s"
    if lt: "int (length (uploadedFiles s)) < maxFiles opts"
      and v: "\<forall>f \<in> set files. file_type f \<in> set (allowedTypes opts) \<and> fst (validateFile f)"
  proof -
    from lt have lt': "int (length rendered) < maxFiles opts" using len by simp
    note u = uploadFiles_all_valid [OF lt' v, of now slugify s, folded efs s', unfolded len]
    have "length efs = length (take (nat (maxFiles opts - int (length (uploadedFiles s)))) files)"
      using u by (metis length_map)
    then show ?thesis using u lt by auto
  qed
  show ?thesis using app bound full valid by blast
qed

theorem uploadFiles_capacity_witness:
  "int (length (uploadedFiles one_uploading)) < maxFiles two_max
   \<and> maxFiles two_max - int (length (uploadedFiles one_uploading))
       < int (length [img ''b.png'', img ''c.png''])
   \<and> int (length (uploadedFiles
          (snd (uploadFiles two_max 1700 id (uploadedFiles one_uploading)
                  [img ''b.png'', img ''c.png''] one_uploading))))
        \<le> maxFiles two_max
   \<and> map fileRef (fst (uploadFiles two_max 1700 id (uploadedFiles one_uploading)
                  [img ''b.png'', img ''c.png''] one_uploading))
        = [img ''b.png'']
   \<and> int (length (fst (uploadFiles two_max 1700 id (uploadedFiles one_uploading)
                  [img ''b.png'', img ''c.png''] one_uploading))) = 1
   \<and> trace (snd (uploadFiles two_max 1700 id (uploadedFiles one_uploading)
                  [img ''b.png'', img ''c.png''] one_uploading))
        = trace one_uploading
   \<and> maxFiles two_max \<le> int (length (uploadedFiles
          (snd (uploadFiles two_max 1700 id (uploadedFiles one_uploading)
                  [img ''b.png'', img ''c.png''] one_uploading))))
   \<and> fst (uploadFiles two_max 1701 id
            (uploadedFiles (snd (uploadFiles two_max 1700 id (uploadedFiles one_uploading)
                  [img ''b.png'', img ''c.png''] one_uploading)))
            [img ''c.png'']
            (snd (uploadFiles two_max 1700 id (uploadedFiles one_uploading)
                  [img ''b.png'', img ''c.png''] one_uploading))) = []
   \<and> trace (snd (uploadFiles two_max 1701 id
            (uploadedFiles (snd (uploadFiles two_max 1700 id (uploadedFiles one_uploading)
                  [img ''b.png'', img ''c.png''] one_uploading)))
            [img ''c.png'']
            (snd (uploadFiles two_max 1700 id (uploadedFiles one_uploading)
                  [img ''b.png'', img ''c.png''] one_uploading))))
        = [OnUploadError MAX_FILES_EXCEEDED]"
proof -
  let ?fs = "[img ''b.png'', img ''c.png'']"
  let ?r = "uploadFiles two_max 1700 id (uploadedFiles one_uploading) ?fs one_uploading"
  let ?q = "uploadFiles two_max 1701 id (uploadedFiles (snd ?r)) [img ''c.png''] (snd ?r)"
  have r: "?r = (fst ?r, snd ?r)" and q: "?q = (fst ?q, snd ?q)"
    by simp_all
  have h1: "int (length (uploadedFiles one_uploading)) < maxFiles two_max"
    and h2: "maxFiles two_max - int (length (uploadedFiles one_uploading)) < int (length ?fs)"
    and h3: "\<forall>f \<in> set ?fs. file_type f \<in> set (allowedTypes two_max) \<and> fst (validateFile f)"
    and h4: "take (nat (maxFiles two_max - int (length (uploadedFiles one_uploading)))) ?fs
              = [img ''b.png'']"
    and h5: "maxFiles two_max - int (length (uploadedFiles one_uploading)) = 1"
    and h6: "has_onUploadError two_max" "trace one_uploading = []"
    by (simp_all add: one_uploading_def two_max_def default_options_def img_def validateFile_def
        ALLOWED_FILE_TYPES_def MAX_FILE_SIZE_def)
  have h7: "maxFiles two_max \<le> int (length (uploadedFiles (snd ?r)))"
    unfolding upload_two_into_one by (simp add: two_max_def)
  show ?thesis
    using uploadFiles_capacity [OF r refl] uploadFiles_capacity [OF q refl]
      h1 h2 h3 h4 h5 h6 h7
    by simp
qed

subsection \<open>The upload task after cancelUpload\<close>

lemma trace_updateFile [simp]: "trace (updateFile uid u s) = trace s"
  by (simp add: updateFile_def)

lemma trace_abort_hits [simp]: "trace (abort_hits uid fs s) = trace s"
  unfolding abort_hits_def
  by (induction fs arbitrary: s) (simp_all add: abort_def split: option.splits)

lemma trace_cancelUpload [simp]: "trace (cancelUpload uid s) = trace s"
  by (simp add: cancelUpload_def Let_def)

lemma trace_progress_run:
  assumes "has_onProgress opts"
  shows "trace (run_task opts uid (map Progress ps) s) = trace s @ map (OnProgress uid) ps"
  using assms unfolding run_task_def
  by (induction ps arbitrary: s) (simp_all add: trace_emit)

lemma trace_mock_success [simp]:
  "trace (task_step opts uid (Resolve True (Some d)) s) = trace s"
  by simp

lemma drop_uploadFile:
  assumes "k \<le> 11"
  shows "drop k (uploadFile f gid)
     = map (\<lambda>j. Progress (10 * j)) [k..<11]
       @ [Resolve True (Some (''https://cdn.example.com/uploads/'' @ gid @ ''_'' @ file_name f,
                              file_name f))]"
  using assms by (simp add: uploadFile_def drop_map)

lemma uploading_one_state:
  "uploading_one =
     \<lparr>uploadedFiles = [\<lparr>fileRef = img ''a.png'', filename = ''1700_a.png'', cdnUrl = None,
          isUploading = Some True, uploadId = ''upload_1700_1'', uploadAbortController = Some 0,
          uploadProgress = Some 0, uploadError = None\<rparr>],
       uploadCounter = 1, controllers = [False],
       trace = [OnProgress ''upload_1700_1'' 0]\<rparr>"
  by (simp add: uploading_one_def uploadFiles_def default_options_def MAX_FILES_ALLOWED_def
      initial_upload_state_def img_def validateFile_def ALLOWED_FILE_TYPES_def MAX_FILE_SIZE_def
      Let_def generateUploadId_def new_AbortController_def generateSafeFilename_def
      string_of_nat_1700 string_of_nat.simps digit_char_def uploadFile_def run_task_def
      upt_rec emit_def updateFile_def spread_def no_updates_def)

lemma cancelled_uploading_one:
  "cancelUpload ''upload_1700_1'' uploading_one =
     \<lparr>uploadedFiles = [], uploadCounter = 1, controllers = [True],
       trace = [OnProgress ''upload_1700_1'' 0]\<rparr>"
  unfolding uploading_one_state
  by (simp add: cancelUpload_def abort_hits_def cancel_hit_def truthy_bool_def abort_def
      List.map_filter_simps)

text \<open>
  Claim C9, on the code. \<open>uploadFile\<close> takes no signal and \<open>processFileUpload\<close> looks at the
  signal only before the transfer starts. So when \<open>cancelUpload\<close> is called after \<open>k\<close>
  resumptions of the transfer, the abort changes nothing in what follows: every
  remaining progress report is still delivered to \<open>onProgress\<close>, for an entry that is no
  longer in the batch.
\<close>

theorem progress_reports_continue_after_cancelUpload:
  assumes "has_onProgress opts" and "k \<le> 11"
  shows "trace (run_task opts uid (drop k (uploadFile f gid)) (cancelUpload uid s))
           = trace s @ map (\<lambda>j. OnProgress uid (10 * j)) [k..<11]"
proof -
  have e: "trace (run_task opts uid (xs @ [Resolve True (Some d)]) t)
      = trace (run_task opts uid xs t)" for xs d t
    by (simp add: run_task_def)
  have p: "trace (run_task opts uid (map (\<lambda>j. Progress (10 * j)) js) t)
      = trace t @ map (\<lambda>j. OnProgress uid (10 * j)) js" for js t
    using trace_progress_run [OF assms(1), of uid "map (\<lambda>j. 10 * j) js" t]
    by (simp add: comp_def)
  show ?thesis
    unfolding drop_uploadFile [OF assms(2)] e p by simp
qed

theorem progress_reports_continue_after_cancelUpload_witness:
  "has_onProgress default_options \<and> (1::nat) \<le> 11
   \<and> signal_aborted (cancelUpload ''upload_1700_1'' uploading_one) 0
   \<and> uploadedFiles (cancelUpload ''upload_1700_1'' uploading_one) = []
   \<and> trace (run_task default_options ''upload_1700_1''
              (drop 1 (uploadFile (img ''a.png'') ''g''))
              (cancelUpload ''upload_1700_1'' uploading_one))
       = [OnProgress ''upload_1700_1'' 0,
          OnProgress ''upload_1700_1'' 10, OnProgress ''upload_1700_1'' 20,
          OnProgress ''upload_1700_1'' 30, OnProgress ''upload_1700_1'' 40,
          OnProgress ''upload_1700_1'' 50, OnProgress ''upload_1700_1'' 60,
          OnProgress ''upload_1700_1'' 70, OnProgress ''upload_1700_1'' 80,
          OnProgress ''upload_1700_1'' 90, OnProgress ''upload_1700_1'' 100]"
proof -
  have h1: "has_onProgress default_options" and h2: "(1::nat) \<le> 11"
    by (simp_all add: default_options_def)
  have t: "trace uploading_one = [OnProgress ''upload_1700_1'' 0]"
    by (simp add: uploading_one_state)
  have u: "[Suc 0..<11] = [1, 2, 3, 4, 5, 6, 7, 8, 9, 10::nat]"
    by (simp add: upt_rec)
  show ?thesis
    using progress_reports_continue_after_cancelUpload [OF h1 h2, of "''upload_1700_1''"
        "img ''a.png''" "''g''" uploading_one] h1
    by (simp add: t u cancelled_uploading_one signal_aborted_def)
qed

section \<open>Properties of the streaming service\<close>

subsection \<open>Splitting into lines\<close>

lemma split_not_Nil [simp]: "split sep s \<noteq> []"
  by (induction s) (simp_all split: list.splits)

lemma split_no_sep: "sep \<notin> set s \<Longrightarrow> split sep s = [s]"
  by (induction s) auto

lemma last_split_no_sep: "sep \<notin> set (last (split sep s))"
proof (induction s)
  case Nil
  then show ?case by simp
next
  case (Cons c cs)
  then show ?case
    by (cases "split sep cs") (auto split: if_splits)
qed

lemma split_append:
  "split sep (a @ b) = butlast (split sep a) @ split sep (last (split sep a) @ b)"
proof (induction a)
  case Nil
  then show ?case by simp
next
  case (Cons c cs)
  show ?case
  proof (cases "c = sep")
    case True
    then show ?thesis using Cons by simp
  next
    case False
    obtain l ls where s: "split sep cs = l # ls"
      by (cases "split sep cs") simp_all
    show ?thesis
    proof (cases ls)
      case Nil
      then show ?thesis using False s Cons by simp
    next
      case (Cons l' ls')
      then show ?thesis using False s Cons.IH by simp
    qed
  qed
qed

lemma read_loop_fragments:
  assumes dec: "streaming_decoder dec"
  shows "CHR 0x0A \<notin> set buffer \<Longrightarrow>
    read_loop config parse dec d buffer (map Value frs @ rs) =
      (let (text, d') = dec d (concat frs);
           lines = split (CHR 0x0A) (buffer @ text);
           (evs', out) = read_loop config parse dec d' (last lines) rs
       in (concat (map (process_line config parse) (butlast lines)) @ evs', out))"
proof (induction frs arbitrary: d buffer)
  case Nil
  have "dec d [] = ([], d)" using dec by (simp add: streaming_decoder_def)
  then show ?case using Nil by (simp add: split_no_sep split_beta Let_def)
next
  case (Cons v vs)
  obtain t d1 where t: "dec d v = (t, d1)" by (cases "dec d v")
  obtain t' d2 where t': "dec d1 (concat vs) = (t', d2)" by (cases "dec d1 (concat vs)")
  have whole: "dec d (v @ concat vs) = (t @ t', d2)"
    using dec t t' by (simp add: streaming_decoder_def)
  let ?lines = "split (CHR 0x0A) (buffer @ t)"
  have nl: "CHR 0x0A \<notin> set (last ?lines)" by (rule last_split_no_sep)
  have sp: "split (CHR 0x0A) (buffer @ t @ t')
      = butlast ?lines @ split (CHR 0x0A) (last ?lines @ t')"
    using split_append [of "CHR 0x0A" "buffer @ t" t'] by simp
  show ?case
    using Cons.IH [OF nl, of d1] t t' whole sp
    by (simp add: split_beta butlast_append Let_def)
qed


lemma emitted_text_append [simp]: "emitted_text (xs @ ys) = emitted_text xs @ emitted_text ys"
  by (induction xs rule: emitted_text.induct) simp_all

lemma emitted_text_process_line:
  "emitted_text (process_line config parse line) = line_payload parse line"
  by (auto simp: process_line_def line_payload_def delta_content_def split: option.splits)

lemma emitted_text_lines:
  "emitted_text (concat (map (process_line config parse) ls)) = concat (map (line_payload parse) ls)"
  by (induction ls) (simp_all add: emitted_text_process_line)

lemma startStreaming_body:
  assumes "streaming_decoder dec"
  shows "startStreaming config parse dec d0 (Response True status (Some (map Value frs @ rs)))
    = startStreaming_catch
        (concat (map (process_line config parse) (complete_lines (fst (dec d0 (concat frs)))))
           @ fst (read_loop config parse dec (snd (dec d0 (concat frs)))
                    (last (split (CHR 0x0A) (fst (dec d0 (concat frs))))) rs),
         snd (read_loop config parse dec (snd (dec d0 (concat frs)))
                    (last (split (CHR 0x0A) (fst (dec d0 (concat frs))))) rs))"
  using read_loop_fragments [OF assms, of "[]" config parse d0 frs rs]
  by (simp add: startStreaming_def split_beta Let_def complete_lines_def)

lemma startStreaming_complete:
  assumes "streaming_decoder dec"
  shows "startStreaming config parse dec d0 (Response True status (Some (map Value frs @ [Done])))
    = (concat (map (process_line config parse) (complete_lines (fst (dec d0 (concat frs)))))
         @ [OnComplete], Resolved)"
  by (simp add: startStreaming_body [OF assms] startStreaming_catch_def)

lemma byte_decoder_streaming: "streaming_decoder byte_decoder"
  by (simp add: streaming_decoder_def byte_decoder_def)

lemma complete_lines_sample:
  "complete_lines sample_stream =
     [''data: {\"type\":\"streaming\",\"content\":\"Hi\"}'', ''data: {oops'', ''null'']"
  by (simp add: complete_lines_def sample_stream_def)


lemma process_sample:
  "process_line plain_config toy_parse ''data: {\"type\":\"streaming\",\"content\":\"Hi\"}''
     = [OnChunk (JObj [(''type'', JStr ''streaming''), (''content'', JStr ''Hi'')])]"
  "process_line plain_config toy_parse ''data: {oops'' = [ConsoleWarn ''data: {oops'']"
  "process_line plain_config toy_parse ''null'' = [OnChunk JNull, ConsoleWarn ''null'']"
  by (simp_all add: process_line_def trim_def is_space_def cleanedLine_def toy_parse_def
        plain_config_def)

text \<open>
  Claim C1. Two fragmentations of the same byte stream make \<open>startStreaming\<close> do exactly
  the same: the same events in the same order and the same outcome, whatever the
  reads that follow the fragments. When the stream then ends, the events are those of
  the complete lines of the decoded stream, in order, followed by completion, and the
  text of the emitted text-delta chunks is the concatenation of the payloads of those
  lines.
\<close>

theorem fragment_boundaries_do_not_matter:
  assumes "streaming_decoder dec" and "concat frs1 = concat frs2"
  shows "startStreaming config parse dec d0 (Response True status (Some (map Value frs1 @ rs)))
         = startStreaming config parse dec d0 (Response True status (Some (map Value frs2 @ rs)))
       \<and> fst (startStreaming config parse dec d0
                 (Response True status (Some (map Value frs1 @ [Done]))))
         = concat (map (process_line config parse)
                    (complete_lines (fst (dec d0 (concat frs1))))) @ [OnComplete]
       \<and> emitted_text (fst (startStreaming config parse dec d0
                 (Response True status (Some (map Value frs1 @ [Done])))))
         = concat (map (line_payload parse) (complete_lines (fst (dec d0 (concat frs1)))))"
proof -
  have "startStreaming config parse dec d0 (Response True status (Some (map Value frs1 @ rs)))
      = startStreaming config parse dec d0 (Response True status (Some (map Value frs2 @ rs)))"
    unfolding startStreaming_body [OF assms(1)] assms(2) by (rule refl)
  moreover have "emitted_text (concat (map (process_line config parse) ls) @ [OnComplete])
      = concat (map (line_payload parse) ls)" for ls
    by (simp add: emitted_text_lines)
  ultimately show ?thesis
    by (simp add: startStreaming_complete [OF assms(1)])
qed


theorem fragment_boundaries_do_not_matter_witness:
  "streaming_decoder byte_decoder
   \<and> concat [sample_stream] = concat [take 9 sample_stream, drop 9 sample_stream]
   \<and> startStreaming plain_config toy_parse byte_decoder ()
        (Response True 200 (Some (map Value [sample_stream] @ [Done])))
      = startStreaming plain_config toy_parse byte_decoder ()
        (Response True 200 (Some (map Value [take 9 sample_stream, drop 9 sample_stream] @ [Done])))
   \<and> fst (startStreaming plain_config toy_parse byte_decoder ()
        (Response True 200 (Some (map Value [sample_stream] @ [Done]))))
      = [OnChunk (JObj [(''type'', JStr ''streaming''), (''content'', JStr ''Hi'')]),
         ConsoleWarn ''data: {oops'', OnChunk JNull, ConsoleWarn ''null'', OnComplete]
   \<and> emitted_text (fst (startStreaming plain_config toy_parse byte_decoder ()
        (Response True 200 (Some (map Value [sample_stream] @ [Done]))))) = ''Hi''"
proof -
  have h: "concat [sample_stream] = concat [take 9 sample_stream, drop 9 sample_stream]"
    by simp
  have d: "fst (byte_decoder () (concat [sample_stream])) = sample_stream"
    by (simp add: byte_decoder_def)
  have p: "line_payload toy_parse ''data: {\"type\":\"streaming\",\"content\":\"Hi\"}'' = ''Hi''"
    "line_payload toy_parse ''data: {oops'' = []"
    "line_payload toy_parse ''null'' = []"
    by (simp_all add: line_payload_def trim_def is_space_def cleanedLine_def toy_parse_def
        delta_content_def)
  note t = fragment_boundaries_do_not_matter [OF byte_decoder_streaming h,
        of plain_config toy_parse "()" 200 "[Done]"]
  have 1: "startStreaming plain_config toy_parse byte_decoder ()
        (Response True 200 (Some (map Value [sample_stream] @ [Done])))
      = startStreaming plain_config toy_parse byte_decoder ()
        (Response True 200 (Some (map Value [take 9 sample_stream, drop 9 sample_stream] @ [Done])))"
    using t by blast
  have 2: "fst (startStreaming plain_config toy_parse byte_decoder ()
        (Response True 200 (Some (map Value [sample_stream] @ [Done]))))
      = [OnChunk (JObj [(''type'', JStr ''streaming''), (''content'', JStr ''Hi'')]),
         ConsoleWarn ''data: {oops'', OnChunk JNull, ConsoleWarn ''null'', OnComplete]"
    using t [THEN conjunct2, THEN conjunct1] unfolding d complete_lines_sample
    by (simp add: process_sample)
  have 3: "emitted_text (fst (startStreaming plain_config toy_parse byte_decoder ()
        (Response True 200 (Some (map Value [sample_stream] @ [Done]))))) = ''Hi''"
    using t [THEN conjunct2, THEN conjunct2] unfolding d complete_lines_sample
    by (simp add: p)
  show ?thesis using byte_decoder_streaming h 1 2 3 by blast
qed

subsection \<open>What startStreaming returns to its caller\<close>

text \<open>
  The \<open>catch\<close> turns every rejection into a normal return, so the promise of
  \<open>startStreaming\<close> never rejects, and the loop of \<open>reconnectWithBackoff\<close>, which retries
  on a rejection of that promise only, ends with its first attempt.
\<close>

lemma startStreaming_catch_not_Rejected: "snd (startStreaming_catch r) \<noteq> Rejected e"
  by (cases r) (auto simp: startStreaming_catch_def split: outcome.splits)

lemma startStreaming_not_Rejected:
  "snd (startStreaming config parse dec d0 response) \<noteq> Rejected e"
  unfolding startStreaming_def by (rule startStreaming_catch_not_Rejected)

lemma reconnect_loop_first_settles:
  assumes "snd (attempt_run attempt) \<noteq> Pending \<longrightarrow> snd (attempt_run attempt) = Resolved"
  shows "reconnect_loop attempt_run opts (Suc remaining) attempt wait lastError
           = attempt_run attempt"
  using assms by (cases "attempt_run attempt") (auto split: outcome.splits)

lemma reconnectWithBackoff_single_attempt:
  assumes "0 < maxRetries opts"
  shows "reconnectWithBackoff config parse dec d0 opts responses
           = startStreaming config parse dec d0 (responses 0)"
proof -
  obtain n where n: "maxRetries opts = Suc n"
    using assms by (cases "maxRetries opts") simp_all
  have "snd (startStreaming config parse dec d0 (responses 0)) \<noteq> Pending
        \<longrightarrow> snd (startStreaming config parse dec d0 (responses 0)) = Resolved"
    using startStreaming_not_Rejected [of config parse dec d0 "responses 0"]
    by (cases "snd (startStreaming config parse dec d0 (responses 0))") auto
  then show ?thesis
    unfolding reconnectWithBackoff_def n by (rule reconnect_loop_first_settles)
qed

subsection \<open>Lines that do not parse\<close>

lemma process_line_blank:
  assumes "trim line = []"
  shows "process_line config parse line = []"
  using assms by (simp add: process_line_def)

lemma process_line_unparsable:
  assumes "trim line \<noteq> []" and "parse (cleanedLine line) = None"
  shows "process_line config parse line = [ConsoleWarn line]"
  using assms by (simp add: process_line_def)

text \<open>
  Claim C7. A line that reaches the parser (it is not blank; a blank line is passed
  over before the \<open>try\<close> and never parsed, see \<open>process_line_blank\<close>) and on whose
  cleaned text \<open>JSON.parse\<close> throws produces one console warning and nothing else:
  no chunk, no error callback. Wherever such a line stands among the complete lines
  of the stream, the lines before and after it are processed as they would be
  without it and the session completes. \<open>reconnectWithBackoff\<close> over that transport
  makes the one attempt, with no timer and no retry.
\<close>

theorem unparsable_line_is_skipped:
  assumes "streaming_decoder dec"
    and "trim line \<noteq> []" and "parse (cleanedLine line) = None"
    and "complete_lines (fst (dec d0 (concat frs))) = before @ line # after"
  shows "process_line config parse line = [ConsoleWarn line]
       \<and> startStreaming config parse dec d0 (Response True status (Some (map Value frs @ [Done])))
         = (concat (map (process_line config parse) before) @ [ConsoleWarn line]
              @ concat (map (process_line config parse) after) @ [OnComplete], Resolved)
       \<and> (0 < maxRetries opts \<longrightarrow>
            reconnectWithBackoff config parse dec d0 opts
              (\<lambda>attempt. Response True status (Some (map Value frs @ [Done])))
            = (concat (map (process_line config parse) before) @ [ConsoleWarn line]
                 @ concat (map (process_line config parse) after) @ [OnComplete], Resolved))"
proof -
  note w = process_line_unparsable [where line = line and parse = parse and config = config,
      OF assms(2,3)]
  have s: "startStreaming config parse dec d0 (Response True status (Some (map Value frs @ [Done])))
         = (concat (map (process_line config parse) before) @ [ConsoleWarn line]
              @ concat (map (process_line config parse) after) @ [OnComplete], Resolved)"
    unfolding startStreaming_complete [OF assms(1)] assms(4) by (simp add: w)
  show ?thesis
    using w s by (simp add: reconnectWithBackoff_single_attempt)
qed

theorem unparsable_line_is_skipped_witness:
  "streaming_decoder byte_decoder
   \<and> trim ''data: {oops'' \<noteq> []
   \<and> toy_parse (cleanedLine ''data: {oops'') = None
   \<and> complete_lines (fst (byte_decoder () (concat [take 50 sample_stream, drop 50 sample_stream])))
       = [''data: {\"type\":\"streaming\",\"content\":\"Hi\"}''] @ ''data: {oops'' # [''null'']
   \<and> 0 < maxRetries default_backoff
   \<and> process_line plain_config toy_parse ''data: {oops'' = [ConsoleWarn ''data: {oops'']
   \<and> startStreaming plain_config toy_parse byte_decoder ()
         (Response True 200
            (Some (map Value [take 50 sample_stream, drop 50 sample_stream] @ [Done])))
       = ([OnChunk (JObj [(''type'', JStr ''streaming''), (''content'', JStr ''Hi'')]),
           ConsoleWarn ''data: {oops'', OnChunk JNull, ConsoleWarn ''null'', OnComplete],
          Resolved)
   \<and> reconnectWithBackoff plain_config toy_parse byte_decoder () default_backoff
         (\<lambda>attempt. Response True 200
            (Some (map Value [take 50 sample_stream, drop 50 sample_stream] @ [Done])))
       = ([OnChunk (JObj [(''type'', JStr ''streaming''), (''content'', JStr ''Hi'')]),
           ConsoleWarn ''data: {oops'', OnChunk JNull, ConsoleWarn ''null'', OnComplete],
          Resolved)"
proof -
  have h2: "trim ''data: {oops'' \<noteq> []"
    and h3: "toy_parse (cleanedLine ''data: {oops'') = None"
    by (simp_all add: trim_def is_space_def cleanedLine_def toy_parse_def)
  have h4: "complete_lines (fst (byte_decoder () (concat [take 50 sample_stream, drop 50 sample_stream])))
       = [''data: {\"type\":\"streaming\",\"content\":\"Hi\"}''] @ ''data: {oops'' # [''null'']"
    by (simp add: byte_decoder_def complete_lines_sample)
  have h5: "0 < maxRetries default_backoff"
    by (simp add: default_backoff_def)
  show ?thesis
    using unparsable_line_is_skipped [where dec = byte_decoder and line = "''data: {oops''"
        and parse = toy_parse and ?d0.0 = "()"
        and frs = "[take 50 sample_stream, drop 50 sample_stream]"
        and before = "[''data: {\"type\":\"streaming\",\"content\":\"Hi\"}'']"
        and after = "[''null'']" and config = plain_config and status = 200
        and opts = default_backoff, OF byte_decoder_streaming h2 h3 h4]
      byte_decoder_streaming h2 h3 h4 h5
    by (simp add: process_sample)
qed

subsection \<open>Cancellation\<close>

lemma error_callbacks_append [simp]:
  "error_callbacks (xs @ ys) = error_callbacks xs @ error_callbacks ys"
  by (induction xs rule: error_callbacks.induct) simp_all

lemma elapsed_append [simp]: "elapsed (xs @ ys) = elapsed xs + elapsed ys"
  by (induction xs rule: elapsed.induct) simp_all

lemma process_line_quiet [simp]:
  "error_callbacks (process_line config parse line) = []"
  "elapsed (process_line config parse line) = 0"
  by (simp_all add: process_line_def split: option.splits)

lemma process_lines_quiet [simp]:
  "error_callbacks (concat (map (process_line config parse) ls)) = []"
  "elapsed (concat (map (process_line config parse) ls)) = 0"
  by (induction ls) simp_all

lemma read_loop_quiet:
  "error_callbacks (fst (read_loop config parse dec d buffer rs)) = []
   \<and> elapsed (fst (read_loop config parse dec d buffer rs)) = 0"
  by (induction config parse dec d buffer rs rule: read_loop.induct)
     (simp_all add: split_beta Let_def)

lemma read_loop_aborted:
  "ends_aborted rs \<Longrightarrow>
     \<exists>e. snd (read_loop config parse dec d buffer rs) = Rejected e \<and> is_AbortError e"
  by (induction config parse dec d buffer rs rule: read_loop.induct)
     (simp_all add: split_beta Let_def)

lemma startStreaming_catch_quiet:
  assumes "error_callbacks (fst r) = []" and "elapsed (fst r) = 0"
    and "\<exists>e. snd r = Rejected e \<and> is_AbortError e"
  shows "error_callbacks (fst (startStreaming_catch r)) = []
       \<and> elapsed (fst (startStreaming_catch r)) = 0
       \<and> snd (startStreaming_catch r) = Resolved"
  using assms by (cases r) (auto simp: startStreaming_catch_def)

lemma startStreaming_cancelled:
  assumes "cancelled response"
  shows "error_callbacks (fst (startStreaming config parse dec d0 response)) = []
       \<and> elapsed (fst (startStreaming config parse dec d0 response)) = 0
       \<and> snd (startStreaming config parse dec d0 response) = Resolved"
proof (cases response)
  case (FetchRejects e)
  then show ?thesis using assms
    by (simp add: startStreaming_def startStreaming_catch_def)
next
  case NoResponse
  then show ?thesis using assms by simp
next
  case (Response ok status body)
  then obtain rs where rs: "ok" "body = Some rs" "ends_aborted rs"
    using assms by (cases body) auto
  show ?thesis
    unfolding startStreaming_def Response using rs
    by (simp add: startStreaming_catch_quiet read_loop_quiet read_loop_aborted)
qed

lemma run_mock_quiet:
  "error_callbacks (fst (run_mock g a k steps)) = []
   \<and> (\<forall>e. snd (run_mock g a k steps) = Rejected e \<longrightarrow> is_AbortError e)
   \<and> snd (run_mock g a k steps) \<noteq> Pending"
  by (induction g a k steps rule: run_mock.induct)
     (auto simp: split_beta Let_def delay_def is_AbortError_def split: option.splits)

lemma mockStreaming_quiet:
  "error_callbacks (fst (mockStreaming config now a)) = []
   \<and> snd (mockStreaming config now a) = Resolved"
proof -
  obtain evs out where r: "run_mock (has_signal config) a 0 (mock_script (message config) now) = (evs, out)"
    by (cases "run_mock (has_signal config) a 0 (mock_script (message config) now)")
  from run_mock_quiet [of "has_signal config" a 0 "mock_script (message config) now"]
  have "error_callbacks evs = []" "\<And>e. out = Rejected e \<Longrightarrow> is_AbortError e"
    "out \<noteq> Pending"
    unfolding r by simp_all
  then show ?thesis
    unfolding mockStreaming_def r
    by (cases out) (auto simp: mockStreaming_catch_def)
qed

lemma deliver_quiet:
  assumes "error_callbacks evs = []"
  shows "error_callbacks (delivered (fold (deliver opts) evs s)) = error_callbacks (delivered s)
       \<and> (error s = None \<longrightarrow> error (fold (deliver opts) evs s) = None)"
  using assms
proof (induction evs arbitrary: s)
  case Nil
  then show ?case by simp
next
  case (Cons ev evs)
  then have evs: "error_callbacks evs = []" and ev: "\<And>e. ev \<noteq> OnError e"
    by (cases ev; simp)+
  have "error_callbacks (delivered (deliver opts ev s)) = error_callbacks (delivered s)
      \<and> (error s = None \<longrightarrow> error (deliver opts ev s) = None)"
    using ev by (cases ev)
      (auto simp: deliver_def handleChunk_def handleComplete_def notify_def)
  then show ?case using Cons.IH [OF evs, of "deliver opts ev s"] by simp
qed

lemma startStream_quiet:
  "error_callbacks (delivered (startStream hopts config now a s)) = error_callbacks (delivered s)
   \<and> error (startStream hopts config now a s) = None"
proof -
  let ?m = "mockStreaming (config\<lparr>has_signal := True\<rparr>) now a"
  have m: "error_callbacks (fst ?m) = []" "snd ?m = Resolved"
    using mockStreaming_quiet by blast+
  have o: "delivered (snd (startStream_open config s)) = delivered s"
    "error (snd (startStream_open config s)) = None"
    by (simp_all add: startStream_open_def Let_def split: option.splits)
  show ?thesis
    using deliver_quiet [OF m(1), of hopts "snd (startStream_open config s)"] m(2) o
    by (simp add: startStream_def split_beta Let_def)
qed

lemma cancelled_response_run:
  "startStreaming plain_config toy_parse byte_decoder () cancelled_response
     = ([OnChunk (JObj [(''type'', JStr ''streaming''), (''content'', JStr ''Hi'')]),
         ConsoleLog ''Stream aborted by user''], Resolved)"
  by (simp add: startStreaming_def cancelled_response_def byte_decoder_def process_sample
      startStreaming_catch_def is_AbortError_def)

lemma mock_aborted_run:
  "mockStreaming plain_config 1700 (DuringDelay 1)
     = ([Timeout 500, OnChunk (text_chunk ''streaming'' ''Analyzing your question'' 1700),
         ConsoleLog ''Mock streaming aborted''], Resolved)"
  by (simp add: mockStreaming_def mock_script_def plain_config_def delay_def
      mockStreaming_catch_def is_AbortError_def)

text \<open>
  Claim C8. A session of \<open>startStreaming\<close> that ends because the fetch or a read
  rejects with the abort error invokes no error callback and returns normally; under
  \<open>reconnectWithBackoff\<close> it is the only attempt, with no timer and no retry.
  \<open>mockStreaming\<close> invokes no error callback and returns normally whenever its signal is
  aborted, and \<open>startStream\<close> of the hook, which awaits it, delivers no error to the
  consumer and keeps no error in its state.
\<close>

theorem cancellation_is_not_an_error:
  "(cancelled response \<longrightarrow>
      error_callbacks (fst (startStreaming config parse dec d0 response)) = []
      \<and> snd (startStreaming config parse dec d0 response) = Resolved)
   \<and> (cancelled (responses 0) \<and> 0 < maxRetries opts \<longrightarrow>
      reconnectWithBackoff config parse dec d0 opts responses
        = startStreaming config parse dec d0 (responses 0)
      \<and> error_callbacks (fst (reconnectWithBackoff config parse dec d0 opts responses)) = []
      \<and> elapsed (fst (reconnectWithBackoff config parse dec d0 opts responses)) = 0)
   \<and> error_callbacks (fst (mockStreaming config now a)) = []
   \<and> snd (mockStreaming config now a) = Resolved
   \<and> error_callbacks (delivered (startStream hopts config now a s))
        = error_callbacks (delivered s)
   \<and> error (startStream hopts config now a s) = None"
  using startStreaming_cancelled [of response config parse dec d0]
    startStreaming_cancelled [of "responses 0" config parse dec d0]
    mockStreaming_quiet [of config now a] startStream_quiet [of hopts config now a s]
  by (simp add: reconnectWithBackoff_single_attempt)


theorem cancellation_is_not_an_error_witness:
  "cancelled cancelled_response \<and> 0 < maxRetries default_backoff
   \<and> startStreaming plain_config toy_parse byte_decoder () cancelled_response
       = ([OnChunk (JObj [(''type'', JStr ''streaming''), (''content'', JStr ''Hi'')]),
           ConsoleLog ''Stream aborted by user''], Resolved)
   \<and> reconnectWithBackoff plain_config toy_parse byte_decoder () default_backoff
         (\<lambda>attempt. cancelled_response)
       = ([OnChunk (JObj [(''type'', JStr ''streaming''), (''content'', JStr ''Hi'')]),
           ConsoleLog ''Stream aborted by user''], Resolved)
   \<and> mockStreaming plain_config 1700 (DuringDelay 1)
       = ([Timeout 500, OnChunk (text_chunk ''streaming'' ''Analyzing your question'' 1700),
           ConsoleLog ''Mock streaming aborted''], Resolved)
   \<and> error_callbacks (delivered (startStream all_callbacks plain_config 1700 (DuringDelay 1)
         initial_hook_state)) = []
   \<and> error (startStream all_callbacks plain_config 1700 (DuringDelay 1) initial_hook_state) = None"
proof -
  have h1: "cancelled cancelled_response" and h2: "0 < maxRetries default_backoff"
    and h3: "error_callbacks (delivered initial_hook_state) = []"
    by (simp_all add: cancelled_response_def is_AbortError_def default_backoff_def
        initial_hook_state_def)
  show ?thesis
    using cancellation_is_not_an_error [of cancelled_response plain_config toy_parse byte_decoder
        "()" "\<lambda>attempt. cancelled_response" default_backoff 1700 "DuringDelay 1" all_callbacks
        initial_hook_state] h1 h2 h3
    by (simp add: cancelled_response_run mock_aborted_run [unfolded One_nat_def])
qed

subsection \<open>Reconnecting after a transport failure\<close>

text \<open>
  Claim C6, on the code. \<open>reconnectWithBackoff\<close> retries when the awaited
  \<open>startStreaming\<close> rejects, but the \<open>catch\<close> of \<open>startStreaming\<close> hands a transport failure
  to \<open>onError\<close> and returns normally. So when the fetch of the first attempt fails, the
  error callback is invoked with that failure, the loop takes the return for a
  success and ends: there is no second attempt and no backoff timer, whatever the
  transport would do on later attempts.
\<close>

theorem failed_first_attempt_is_final:
  assumes "0 < maxRetries opts" and "responses 0 = FetchRejects e" and "\<not> is_AbortError e"
  shows "reconnectWithBackoff config parse dec d0 opts responses
           = ([OnError (as_Error e)], Resolved)
       \<and> error_callbacks (fst (reconnectWithBackoff config parse dec d0 opts responses))
           = [as_Error e]
       \<and> elapsed (fst (reconnectWithBackoff config parse dec d0 opts responses)) = 0"
proof -
  have "reconnectWithBackoff config parse dec d0 opts responses
      = ([OnError (as_Error e)], Resolved)"
    using assms
    by (simp add: reconnectWithBackoff_single_attempt startStreaming_def
        startStreaming_catch_def)
  then show ?thesis by simp
qed

theorem failed_first_attempt_is_final_witness:
  "0 < maxRetries default_backoff
   \<and> flaky_transport 0 = FetchRejects (ErrorObj ''TypeError'' ''Failed to fetch'')
   \<and> flaky_transport 1 = FetchRejects (ErrorObj ''TypeError'' ''Failed to fetch'')
   \<and> flaky_transport 2 = Response True 200 (Some [Done])
   \<and> \<not> is_AbortError (ErrorObj ''TypeError'' ''Failed to fetch'')
   \<and> reconnectWithBackoff plain_config toy_parse byte_decoder () default_backoff flaky_transport
       = ([OnError (ErrorObj ''TypeError'' ''Failed to fetch'')], Resolved)
   \<and> error_callbacks (fst (reconnectWithBackoff plain_config toy_parse byte_decoder ()
         default_backoff flaky_transport)) = [ErrorObj ''TypeError'' ''Failed to fetch'']
   \<and> elapsed (fst (reconnectWithBackoff plain_config toy_parse byte_decoder ()
         default_backoff flaky_transport)) = 0"
proof -
  have h1: "0 < maxRetries default_backoff"
    and h2: "flaky_transport 0 = FetchRejects (ErrorObj ''TypeError'' ''Failed to fetch'')"
    and h3: "\<not> is_AbortError (ErrorObj ''TypeError'' ''Failed to fetch'')"
    and f: "flaky_transport 1 = FetchRejects (ErrorObj ''TypeError'' ''Failed to fetch'')"
      "flaky_transport 2 = Response True 200 (Some [Done])"
    and e: "as_Error (ErrorObj ''TypeError'' ''Failed to fetch'')
              = ErrorObj ''TypeError'' ''Failed to fetch''"
    by (simp_all add: default_backoff_def flaky_transport_def is_AbortError_def as_Error_def)
  show ?thesis
    using failed_first_attempt_is_final [where opts = default_backoff
        and responses = flaky_transport and e = "ErrorObj ''TypeError'' ''Failed to fetch''"
        and config = plain_config and parse = toy_parse and dec = byte_decoder and ?d0.0 = "()",
        OF h1 h2 h3]
      h1 h2 h3 f
    unfolding e by simp
qed

section \<open>Properties of the streaming hook\<close>

lemma run_mock_Never:
  "run_mock g Never k steps = (map step_event steps, Resolved)"
  by (induction g Never k steps rule: run_mock.induct) (simp_all add: delay_def)

lemma mockStreaming_Never:
  "mockStreaming config now Never = (map step_event (mock_script (message config) now), Resolved)"
  by (simp add: mockStreaming_def run_mock_Never mockStreaming_catch_def)

lemma hook_callbacks_mock:
  "hd (hook_callbacks (map step_event (mock_script msg now)))
     = OnChunk (text_chunk ''streaming'' ''Analyzing your question'' now)
   \<and> last (hook_callbacks (map step_event (mock_script msg now))) = OnComplete"
  by (simp add: hook_callbacks_def mock_script_def)

lemma deliver_all:
  assumes "given_onChunk opts" "given_onComplete opts" "given_onError opts"
  shows "delivered (fold (deliver opts) evs s) = delivered s @ hook_callbacks evs"
proof (induction evs arbitrary: s)
  case Nil
  then show ?case by (simp add: hook_callbacks_def)
next
  case (Cons ev evs)
  have "delivered (deliver opts ev s) = delivered s @ hook_callbacks [ev]"
    using assms by (cases ev)
      (simp_all add: deliver_def handleChunk_def handleComplete_def handleError_def notify_def
        hook_callbacks_def Let_def)
  then show ?case using Cons.IH [of "deliver opts ev s"]
    by (simp add: hook_callbacks_def)
qed

lemma startStream_Never:
  assumes "given_onChunk opts" "given_onComplete opts" "given_onError opts"
  shows "delivered (startStream opts config now Never s)
     = delivered s @ hook_callbacks (fst (mockStreaming (config\<lparr>has_signal := True\<rparr>) now Never))"
proof -
  have "delivered (snd (startStream_open config s)) = delivered s"
    by (simp add: startStream_open_def Let_def split: option.splits)
  then show ?thesis
    using deliver_all [OF assms, of _ "snd (startStream_open config s)"]
    by (simp add: startStream_def split_beta mockStreaming_Never)
qed

lemma startStream_open_live:
  assumes "one_live_token s"
  shows "one_live_token (snd (startStream_open config s))"
proof (cases "abortControllerRef s")
  case None
  then show ?thesis using assms
    by (auto simp: one_live_token_def startStream_open_def Let_def nth_append)
next
  case (Some c)
  have "(abortControllers s)[c := True] ! i" if "i < length (abortControllers s)" for i
  proof (cases "i = c")
    case True
    then show ?thesis using that by simp
  next
    case False
    then have "abortControllers s ! i"
      using assms that Some by (auto simp: one_live_token_def)
    then show ?thesis using False by simp
  qed
  then show ?thesis using Some
    by (auto simp: one_live_token_def startStream_open_def Let_def nth_append)
qed

lemma open_session_state:
  "open_session = initial_hook_state\<lparr>abortControllers := [False], abortControllerRef := Some 0,
     lastConfigRef := Some plain_config, isStreaming := True\<rparr>"
  by (simp add: open_session_def startStream_open_def initial_hook_state_def)

text \<open>
  Claim C5, as stated, on an engine with a session open (its controller in the ref and
  not aborted, \<open>isStreaming\<close> set, nothing delivered yet): the claim has a second
  \<open>startStream\<close> fail without invoking the consumer; the code starts the new session,
  whose first chunk and completion reach the consumer.
\<close>

theorem second_startStream_counterexample:
  "abortControllerRef open_session = Some 0
   \<and> \<not> abortControllers open_session ! 0
   \<and> isStreaming open_session
   \<and> delivered open_session = []
   \<and> hd (delivered (startStream all_callbacks plain_config 1700 Never open_session))
       = OnChunk (text_chunk ''streaming'' ''Analyzing your question'' 1700)
   \<and> last (delivered (startStream all_callbacks plain_config 1700 Never open_session))
       = OnComplete"
proof -
  have "given_onChunk all_callbacks" "given_onComplete all_callbacks" "given_onError all_callbacks"
    by (simp_all add: all_callbacks_def)
  from startStream_Never [OF this, of plain_config 1700 open_session]
  have "delivered (startStream all_callbacks plain_config 1700 Never open_session)
      = hook_callbacks (map step_event (mock_script (message plain_config) 1700))"
    by (simp add: mockStreaming_Never open_session_state initial_hook_state_def)
  then show ?thesis
    using hook_callbacks_mock [of "message plain_config" 1700]
    by (simp add: open_session_state initial_hook_state_def)
qed

text \<open>
  Claim C5, amended. On an engine with a session open, a second \<open>startStream\<close> does not
  fail: it aborts the controller of the open session ("Stop any existing stream"),
  creates a fresh controller that becomes the current one, and runs the new session,
  whose callbacks reach the consumer (with the mock transport and no cancellation,
  from the first chunk to completion). At most one session per engine has a token that
  is not aborted, before and after the call.
\<close>

theorem startStream_replaces_open_session:
  assumes "abortControllerRef s = Some c" and "c < length (abortControllers s)"
  shows "fst (startStream_open config s) = length (abortControllers s)
       \<and> abortControllers (snd (startStream_open config s))
           = (abortControllers s)[c := True] @ [False]
       \<and> abortControllers (snd (startStream_open config s)) ! c
       \<and> abortControllerRef (snd (startStream_open config s)) = Some (length (abortControllers s))
       \<and> isStreaming (snd (startStream_open config s))
       \<and> lastConfigRef (snd (startStream_open config s)) = Some config
       \<and> (one_live_token s \<longrightarrow> one_live_token (snd (startStream_open config s)))
       \<and> (given_onChunk opts \<and> given_onComplete opts \<and> given_onError opts \<longrightarrow>
            delivered (startStream opts config now Never s)
              = delivered s
                @ hook_callbacks (fst (mockStreaming (config\<lparr>has_signal := True\<rparr>) now Never))
            \<and> hd (hook_callbacks (fst (mockStreaming (config\<lparr>has_signal := True\<rparr>) now Never)))
              = OnChunk (text_chunk ''streaming'' ''Analyzing your question'' now)
            \<and> last (hook_callbacks (fst (mockStreaming (config\<lparr>has_signal := True\<rparr>) now Never)))
              = OnComplete)"
proof -
  have "abortControllers (snd (startStream_open config s)) = (abortControllers s)[c := True] @ [False]"
    using assms by (simp add: startStream_open_def Let_def)
  moreover from this have "abortControllers (snd (startStream_open config s)) ! c"
    using assms(2) by (simp add: nth_append)
  moreover have "fst (startStream_open config s) = length (abortControllers s)"
    "abortControllerRef (snd (startStream_open config s)) = Some (length (abortControllers s))"
    "isStreaming (snd (startStream_open config s))"
    "lastConfigRef (snd (startStream_open config s)) = Some config"
    using assms by (simp_all add: startStream_open_def Let_def)
  ultimately show ?thesis
    using startStream_open_live [of s config] startStream_Never [of opts config now s]
      hook_callbacks_mock [of "message config" now]
    by (simp add: mockStreaming_Never)
qed


theorem startStream_replaces_open_session_witness:
  "abortControllerRef open_session = Some 0
   \<and> 0 < length (abortControllers open_session)
   \<and> one_live_token open_session
   \<and> given_onChunk all_callbacks \<and> given_onComplete all_callbacks \<and> given_onError all_callbacks
   \<and> fst (startStream_open plain_config open_session) = 1
   \<and> abortControllers (snd (startStream_open plain_config open_session)) = [True, False]
   \<and> abortControllerRef (snd (startStream_open plain_config open_session)) = Some 1
   \<and> one_live_token (snd (startStream_open plain_config open_session))
   \<and> last (delivered (startStream all_callbacks plain_config 1700 Never open_session))
       = OnComplete"
proof -
  have h1: "abortControllerRef open_session = Some 0"
    and h2: "0 < length (abortControllers open_session)"
    and h3: "one_live_token open_session"
    and h4: "given_onChunk all_callbacks \<and> given_onComplete all_callbacks \<and> given_onError all_callbacks"
    and l: "length (abortControllers open_session) = 1" "(abortControllers open_session)[0 := True] = [True]"
      "delivered open_session = []"
    by (simp_all add: open_session_state initial_hook_state_def one_live_token_def all_callbacks_def)
  have ne: "hook_callbacks (map step_event (mock_script (message plain_config) 1700)) \<noteq> []"
    by (simp add: hook_callbacks_def mock_script_def)
  show ?thesis
    using startStream_replaces_open_session [OF h1 h2, of plain_config all_callbacks 1700]
      h1 h2 h3 h4 l ne
    by (simp add: mockStreaming_Never)
qed

text \<open>
  An abort that happens while no delay of the session is pending is not seen by
  \<open>delay\<close>: the mock session runs as if it had never been aborted.
\<close>

lemma run_mock_OutsideDelays:
  "run_mock g OutsideDelays k steps = run_mock g Never k steps"
  by (induction g OutsideDelays k steps rule: run_mock.induct) (simp_all add: delay_def)

lemma mockStreaming_OutsideDelays:
  "mockStreaming config now OutsideDelays = mockStreaming config now Never"
  by (simp add: mockStreaming_def run_mock_OutsideDelays)

end
